theory Spec2Isabelle
  imports Complex_Main "HOL-Library.Char_ord" "HOL-Library.List_Lexorder"
begin

section \<open>The data model of cleaning.py\<close>

text \<open>
  A data frame is a list of rows together with the list of its column names and the
  dtype kind of every column. A float is a real number or one of the two infinities;
  NaN is written \<open>None\<close>, so a nullable float is a \<open>float option\<close>. Rounding, the
  overflow of a finite result and the sign of zero are outside this development.
  Before numeric coercion a cell of a numeric column is a text, a number or a missing
  value (None, NaN, NA). A Python string is a list of characters with code points below
  256, so the non-breaking space U+00A0 is \<open>CHR 0xA0\<close>.
\<close>

datatype float = MInf | Fin real | PInf

text \<open>The order of the floats: minus infinity below and plus infinity above the reals.\<close>

instantiation float :: linorder
begin

definition less_eq_float :: "float \<Rightarrow> float \<Rightarrow> bool" where
  "less_eq_float a b =
     (case a of
        MInf \<Rightarrow> True
      | Fin x \<Rightarrow> (case b of MInf \<Rightarrow> False | Fin y \<Rightarrow> x \<le> y | PInf \<Rightarrow> True)
      | PInf \<Rightarrow> (case b of PInf \<Rightarrow> True | _ \<Rightarrow> False))"

definition less_float :: "float \<Rightarrow> float \<Rightarrow> bool" where
  "less_float a b = (a \<le> b \<and> \<not> b \<le> (a :: float))"

instance
proof
  fix x y z :: float
  show "(x < y) = (x \<le> y \<and> \<not> y \<le> x)" by (simp add: less_float_def)
  show "x \<le> x" by (cases x) (simp_all add: less_eq_float_def)
  show "x \<le> y \<Longrightarrow> y \<le> z \<Longrightarrow> x \<le> z"
    by (cases x; cases y; cases z) (simp_all add: less_eq_float_def)
  show "x \<le> y \<Longrightarrow> y \<le> x \<Longrightarrow> x = y"
    by (cases x; cases y) (simp_all add: less_eq_float_def)
  show "x \<le> y \<or> y \<le> x"
    by (cases x; cases y) (auto simp: less_eq_float_def)
qed

end

text \<open>
  Float addition and halving, as the median of an even number of values uses them, and
  float division. The sum of the two infinities and the quotients of two infinities and
  of two zeros are NaN; a quotient by zero is an infinity otherwise.
\<close>

definition float_add :: "float \<Rightarrow> float \<Rightarrow> float option" where
  "float_add a b =
     (case (a, b) of
        (Fin x, Fin y) \<Rightarrow> Some (Fin (x + y))
      | (PInf, MInf) \<Rightarrow> None
      | (MInf, PInf) \<Rightarrow> None
      | (PInf, _) \<Rightarrow> Some PInf
      | (_, PInf) \<Rightarrow> Some PInf
      | (MInf, _) \<Rightarrow> Some MInf
      | (_, MInf) \<Rightarrow> Some MInf)"

definition float_half :: "float \<Rightarrow> float" where
  "float_half a = (case a of Fin x \<Rightarrow> Fin (x / 2) | MInf \<Rightarrow> MInf | PInf \<Rightarrow> PInf)"

definition float_quot :: "float \<Rightarrow> float \<Rightarrow> float option" where
  "float_quot a b =
     (case (a, b) of
        (Fin x, Fin y) \<Rightarrow>
          (if y \<noteq> 0 then Some (Fin (x / y))
           else if 0 < x then Some PInf else if x < 0 then Some MInf else None)
      | (Fin x, _) \<Rightarrow> Some (Fin 0)
      | (PInf, Fin y) \<Rightarrow> (if 0 \<le> y then Some PInf else Some MInf)
      | (MInf, Fin y) \<Rightarrow> (if 0 \<le> y then Some MInf else Some PInf)
      | _ \<Rightarrow> None)"

datatype cell = Text string | Number float | Missing

record 'a row =
  iso_a2 :: "string option"
  name_long :: "string option"
  continent :: "string option"
  region_un :: "string option"
  subregion :: "string option"
  type_col :: "string option"
  area_km2 :: 'a
  pop :: 'a
  lifeExp :: 'a
  gdpPercap :: 'a

record 'a out_row = "'a row" +
  pop_density :: 'a

record raw_table =
  columns :: "string list"
  dtype_kind :: "string \<Rightarrow> char"
  rows :: "cell row list"

record series =
  kind :: char
  cells :: "cell list"

datatype error = KeyError "string list"

record tier_counts =
  by_subregion :: nat
  by_continent :: nat
  by_global :: nat

text \<open>
  The report of one run. The key \<open>lifeExp_out_of_range_set_nan\<close> is written only when
  some value was out of range, and the keys \<open>impute_lifeExp\<close>, \<open>impute_gdpPercap\<close>
  only when the column exists, so they are optional; \<open>row_count\<close> is written when
  \<open>generate_report\<close> is set. The list of step messages, the non-null ratios and the
  descriptive statistics are not part of this record.
\<close>

record report =
  dropped_missing_identifiers :: nat
  dropped_invalid_nonpositive :: nat
  lifeExp_out_of_range_set_nan :: "nat option"
  impute_lifeExp :: "tier_counts option"
  impute_gdpPercap :: "tier_counts option"
  dropped_missing_area_or_pop :: nat
  deduplicated_rows :: nat
  row_count :: "nat option"

definition NUMERIC_COLS :: "string list" where
  "NUMERIC_COLS = [''area_km2'', ''pop'', ''lifeExp'', ''gdpPercap'']"

definition IDENTIFIER_COLS :: "string list" where
  "IDENTIFIER_COLS = [''iso_a2'', ''name_long'']"


text \<open>Reading a column of a row by its name.\<close>

definition num_col :: "string \<Rightarrow> 'a row \<Rightarrow> 'a option" where
  "num_col c r =
     (if c = ''area_km2'' then Some (area_km2 r)
      else if c = ''pop'' then Some (pop r)
      else if c = ''lifeExp'' then Some (lifeExp r)
      else if c = ''gdpPercap'' then Some (gdpPercap r)
      else None)"

section \<open>Numeric coercion: \<open>_to_numeric_safe\<close>\<close>

text \<open>
  \<open>str.strip()\<close> removes the characters Python counts as whitespace; below code point
  256 these are 9 to 13, 28 to 32, 0x85 and 0xA0.
\<close>

definition is_space :: "char \<Rightarrow> bool" where
  "is_space c = (of_char c \<in> set [9, 10, 11, 12, 13, 28, 29, 30, 31, 32, 133, 160 :: nat])"

definition strip :: "string \<Rightarrow> string" where
  "strip s = rev (dropWhile is_space (rev (dropWhile is_space s)))"

definition replace_nbsp :: "string \<Rightarrow> string" where
  "replace_nbsp s = map (\<lambda>c. if c = CHR 0xA0 then CHR '' '' else c) s"

definition remove_commas :: "string \<Rightarrow> string" where
  "remove_commas s = filter (\<lambda>c. c \<noteq> CHR '','') s"

text \<open>
  The chain of \<open>str.replace\<close> of U+00A0 by a space, \<open>str.replace\<close> of the comma by
  the empty text, and \<open>str.strip\<close>.
\<close>

definition cleaned_text :: "string \<Rightarrow> string" where
  "cleaned_text s = strip (remove_commas (replace_nbsp s))"

text \<open>
  \<open>astype(str)\<close> renders a missing cell as one of the texts None, nan and <NA>, which
  \<open>pd.to_numeric(errors="coerce")\<close> turns into NaN, and renders a number as a text
  that parses back to the number. The parser of \<open>pd.to_numeric\<close> for one text is the
  parameter \<open>parse\<close>; it answers \<open>None\<close> (NaN) where the text is no number.
\<close>

definition to_numeric_cell :: "(string \<Rightarrow> float option) \<Rightarrow> cell \<Rightarrow> cell" where
  "to_numeric_cell parse c =
     (case c of
        Missing \<Rightarrow> Missing
      | Number x \<Rightarrow> Number x
      | Text s \<Rightarrow>
          (let cleaned = cleaned_text s in
           if cleaned = '''' \<or> cleaned = ''nan'' \<or> cleaned = ''Nan'' then Missing
           else (case parse cleaned of None \<Rightarrow> Missing | Some x \<Rightarrow> Number x)))"

definition to_numeric_safe :: "(string \<Rightarrow> float option) \<Rightarrow> series \<Rightarrow> series" where
  "to_numeric_safe parse s =
     (if kind s \<in> set ''biufc'' then s
      else \<lparr>kind = CHR ''f'', cells = map (to_numeric_cell parse) (cells s)\<rparr>)"

text \<open>
  The value of a cell of a numeric column as a nullable float. A numeric column holds
  numbers and NaN only; a text there is read as missing.
\<close>

fun num :: "cell \<Rightarrow> float option" where
  "num (Number x) = Some x"
| "num Missing = None"
| "num (Text s) = None"

section \<open>The stages of \<open>clean_world_data\<close>\<close>

text \<open>Step A: \<open>df.dropna(subset=IDENTIFIER_COLS, how="any")\<close>.\<close>

definition step_A :: "('a, 'b) row_scheme list \<Rightarrow> ('a, 'b) row_scheme list" where
  "step_A df = filter (\<lambda>r. iso_a2 r \<noteq> None \<and> name_long r \<noteq> None) df"

text \<open>
  Step B: for each numeric column that exists, \<open>df[col] = _to_numeric_safe(df[col])\<close>.
  The column is taken out of the rows as a series, coerced, and written back row by row.
\<close>

definition get_series :: "raw_table \<Rightarrow> (cell row \<Rightarrow> cell) \<Rightarrow> string \<Rightarrow> cell row list \<Rightarrow> series" where
  "get_series t field c df = \<lparr>kind = dtype_kind t c, cells = map field df\<rparr>"

definition coerce_column ::
  "(string \<Rightarrow> float option) \<Rightarrow> raw_table \<Rightarrow> (cell row \<Rightarrow> cell) \<Rightarrow> string \<Rightarrow> cell row list \<Rightarrow> cell list" where
  "coerce_column parse t field c df =
     (if c \<in> set (columns t) then cells (to_numeric_safe parse (get_series t field c df))
      else map field df)"

definition step_B :: "(string \<Rightarrow> float option) \<Rightarrow> raw_table \<Rightarrow> cell row list \<Rightarrow> float option row list" where
  "step_B parse t df =
     map (\<lambda>(r, a, p, l, g).
            \<lparr>iso_a2 = iso_a2 r, name_long = name_long r, continent = continent r,
             region_un = region_un r, subregion = subregion r, type_col = type_col r,
             area_km2 = num a, pop = num p, lifeExp = num l, gdpPercap = num g\<rparr>)
       (zip df
         (zip (coerce_column parse t area_km2 ''area_km2'' df)
           (zip (coerce_column parse t pop ''pop'' df)
             (zip (coerce_column parse t lifeExp ''lifeExp'' df)
                  (coerce_column parse t gdpPercap ''gdpPercap'' df)))))"

text \<open>
  Step C: a comparison with NaN is false, so a null never sets the mask.
\<close>

definition le0 :: "float option \<Rightarrow> bool" where
  "le0 v = (case v of None \<Rightarrow> False | Some x \<Rightarrow> x \<le> Fin 0)"

definition invalid_mask :: "(float option, 'b) row_scheme \<Rightarrow> bool" where
  "invalid_mask r = (le0 (pop r) \<or> le0 (area_km2 r) \<or> le0 (gdpPercap r))"

definition step_C :: "float option row list \<Rightarrow> float option row list" where
  "step_C df = filter (\<lambda>r. \<not> invalid_mask r) df"

definition out_of_range :: "(float option, 'b) row_scheme \<Rightarrow> bool" where
  "out_of_range r = (case lifeExp r of None \<Rightarrow> False | Some x \<Rightarrow> x \<le> Fin 0 \<or> Fin 120 \<le> x)"

definition set_out_of_range_nan :: "float option row list \<Rightarrow> float option row list" where
  "set_out_of_range_nan df = map (\<lambda>r. if out_of_range r then r\<lparr>lifeExp := None\<rparr> else r) df"

section \<open>Group-wise median imputation\<close>

text \<open>
  The median of the non-null values: the middle one of the sorted values, or the mean of
  the two middle ones; NaN (\<open>None\<close>) when there is no value or when the two middle
  ones are the two infinities.
\<close>

definition median :: "float list \<Rightarrow> float option" where
  "median xs =
     (if xs = [] then None
      else let s = sort xs; n = length s in
        if odd n then Some (s ! (n div 2))
        else map_option float_half (float_add (s ! (n div 2 - 1)) (s ! (n div 2))))"

definition notna_values :: "('r \<Rightarrow> float option) \<Rightarrow> 'r list \<Rightarrow> float list" where
  "notna_values col df = List.map_filter col df"

text \<open>
  \<open>df.groupby(key)[col].median()\<close>: a series indexed by the non-null keys that occur
  in \<open>df\<close>; the entry of a group without a non-null value is NaN.
\<close>

definition groupby_median ::
  "('r \<Rightarrow> string option) \<Rightarrow> ('r \<Rightarrow> float option) \<Rightarrow> 'r list \<Rightarrow> (string \<rightharpoonup> float option)" where
  "groupby_median key col df =
     (\<lambda>k. if Some k \<in> set (map key df)
          then Some (median (notna_values col (filter (\<lambda>r. key r = Some k) df)))
          else None)"

text \<open>
  One group tier. \<open>tier_idx\<close> is the mask
  \<open>missing_idx & df[key].notna() & df[key].isin(med.index)\<close>, \<open>tier_value\<close> is
  \<open>df[key].map(med)\<close>.
\<close>

definition tier_idx :: "(string \<rightharpoonup> float option) \<Rightarrow> ('r \<Rightarrow> string option) \<Rightarrow> 'r \<Rightarrow> float option \<Rightarrow> bool" where
  "tier_idx med key r v =
     (v = None \<and> (case key r of None \<Rightarrow> False | Some k \<Rightarrow> k \<in> dom med))"

definition tier_value :: "(string \<rightharpoonup> float option) \<Rightarrow> ('r \<Rightarrow> string option) \<Rightarrow> 'r \<Rightarrow> float option" where
  "tier_value med key r =
     (case key r of None \<Rightarrow> None
      | Some k \<Rightarrow> (case med k of None \<Rightarrow> None | Some m \<Rightarrow> m))"

definition fill_tier ::
  "(string \<rightharpoonup> float option) \<Rightarrow> ('r \<Rightarrow> string option) \<Rightarrow> 'r list \<Rightarrow> float option list \<Rightarrow> float option list" where
  "fill_tier med key df filled =
     map (\<lambda>(r, v). if tier_idx med key r v then tier_value med key r else v) (zip df filled)"

definition count_tier ::
  "(string \<rightharpoonup> float option) \<Rightarrow> ('r \<Rightarrow> string option) \<Rightarrow> 'r list \<Rightarrow> float option list \<Rightarrow> nat" where
  "count_tier med key df filled =
     length (filter (\<lambda>(r, v). tier_idx med key r v) (zip df filled))"

definition any_missing :: "float option list \<Rightarrow> bool" where
  "any_missing filled = (None \<in> set filled)"

definition no_counts :: tier_counts where
  "no_counts = \<lparr>by_subregion = 0, by_continent = 0, by_global = 0\<rparr>"

text \<open>
  \<open>_imputation_groupwise_median(df, col, groups_priority)\<close>. The first argument is
  \<open>df.columns\<close>: grouping by a column that does not exist raises KeyError. The medians
  of all three tiers are taken from \<open>df[col]\<close>, the series \<open>filled\<close> is a copy.
\<close>

definition imputation_groupwise_median ::
  "string list \<Rightarrow> float option row list \<Rightarrow> (float option row \<Rightarrow> float option) \<Rightarrow> string list
     \<Rightarrow> error + (float option list \<times> tier_counts)" where
  "imputation_groupwise_median cols df col groups_priority =
     (let filled = map col df; report = no_counts in
      if \<not> any_missing filled then Inr (filled, report)
      else
        (case (if ''subregion'' \<in> set groups_priority then
                 (if ''subregion'' \<notin> set cols then Inl (KeyError [''subregion''])
                  else let med_sub = groupby_median subregion col df in
                    Inr (fill_tier med_sub subregion df filled,
                         report\<lparr>by_subregion := count_tier med_sub subregion df filled\<rparr>))
               else Inr (filled, report)) of
           Inl e \<Rightarrow> Inl e
         | Inr (filled1, report1) \<Rightarrow>
            (case (if ''continent'' \<in> set groups_priority \<and> any_missing filled1 then
                     (if ''continent'' \<notin> set cols then Inl (KeyError [''continent''])
                      else let med_cont = groupby_median continent col df in
                        Inr (fill_tier med_cont continent df filled1,
                             report1\<lparr>by_continent := count_tier med_cont continent df filled1\<rparr>))
                   else Inr (filled1, report1)) of
               Inl e \<Rightarrow> Inl e
             | Inr (filled2, report2) \<Rightarrow>
                if any_missing filled2 then
                  (let global_med = median (notna_values col df) in
                   Inr (map (\<lambda>v. if v = None then global_med else v) filled2,
                        report2\<lparr>by_global := length (filter (\<lambda>v. v = None) filled2)\<rparr>))
                else Inr (filled2, report2))))"

text \<open>Writing the imputed series back: \<open>df[col] = filled\<close>.\<close>

definition assign_lifeExp :: "float option row list \<Rightarrow> float option list \<Rightarrow> float option row list" where
  "assign_lifeExp df filled = map (\<lambda>(r, v). r\<lparr>lifeExp := v\<rparr>) (zip df filled)"

definition assign_gdpPercap :: "float option row list \<Rightarrow> float option list \<Rightarrow> float option row list" where
  "assign_gdpPercap df filled = map (\<lambda>(r, v). r\<lparr>gdpPercap := v\<rparr>) (zip df filled)"

section \<open>Completeness, deduplication and the derived field\<close>

text \<open>Step E: \<open>df.dropna(subset=["area_km2", "pop"])\<close>.\<close>

definition step_E :: "float option row list \<Rightarrow> float option row list" where
  "step_E df = filter (\<lambda>r. area_km2 r \<noteq> None \<and> pop r \<noteq> None) df"

text \<open>
  \<open>rows[important_cols].notna().sum(axis=1)\<close> for one row, and \<open>idxmax\<close>: the
  position of the first greatest count.
\<close>

definition non_null_count :: "string list \<Rightarrow> float option row \<Rightarrow> nat" where
  "non_null_count important_cols r =
     length (filter (\<lambda>c. (case num_col c r of Some (Some x) \<Rightarrow> True | _ \<Rightarrow> False)) important_cols)"

fun first_index :: "('a \<Rightarrow> bool) \<Rightarrow> 'a list \<Rightarrow> nat" where
  "first_index P [] = 0"
| "first_index P (x # xs) = (if P x then 0 else Suc (first_index P xs))"

definition idxmax :: "nat list \<Rightarrow> nat" where
  "idxmax counts = first_index (\<lambda>c. c = Max (set counts)) counts"

text \<open>
  \<open>_choose_row_with_more_non_nulls\<close>. \<open>idxmax\<close> of an empty series raises; the
  groups of a \<open>groupby\<close> are never empty, and the empty case is \<open>None\<close> here.
\<close>

definition choose_row_with_more_non_nulls :: "float option row list \<Rightarrow> string list \<Rightarrow> float option row option" where
  "choose_row_with_more_non_nulls grp important_cols =
     (if grp = [] then None
      else Some (grp ! idxmax (map (non_null_count important_cols) grp)))"

text \<open>
  \<open>df.groupby("iso_a2", dropna=False)\<close>: one group for each key, the keys in
  ascending order and the group of the null key last; the rows of a group keep their
  order.
\<close>

definition groupby_iso_a2 :: "float option row list \<Rightarrow> float option row list list" where
  "groupby_iso_a2 df =
     map (\<lambda>k. filter (\<lambda>r. iso_a2 r = Some k) df) (sort (remdups (List.map_filter iso_a2 df)))
     @ (if None \<in> set (map iso_a2 df) then [filter (\<lambda>r. iso_a2 r = None) df] else [])"

definition keep_of_group :: "float option row list \<Rightarrow> float option row list" where
  "keep_of_group grp =
     (if length grp = 1 then [hd grp]
      else (case choose_row_with_more_non_nulls grp NUMERIC_COLS of
              None \<Rightarrow> [] | Some r \<Rightarrow> [r]))"

text \<open>Step F.\<close>

definition step_F :: "float option row list \<Rightarrow> float option row list" where
  "step_F df =
     (if \<not> distinct (map iso_a2 df) then concat (map keep_of_group (groupby_iso_a2 df))
      else df)"

text \<open>
  Step G: \<open>df["pop_density"] = df["pop"] / df["area_km2"]\<close>. A quotient with a NaN
  operand is NaN; the quotient of two floats is \<open>float_quot\<close>.
\<close>

definition float_div :: "float option \<Rightarrow> float option \<Rightarrow> float option" where
  "float_div a b =
     (case (a, b) of
        (Some x, Some y) \<Rightarrow> float_quot x y
      | _ \<Rightarrow> None)"

definition step_G :: "float option row list \<Rightarrow> float option out_row list" where
  "step_G df =
     map (\<lambda>r. \<lparr>iso_a2 = iso_a2 r, name_long = name_long r, continent = continent r,
              region_un = region_un r, subregion = subregion r, type_col = type_col r,
              area_km2 = area_km2 r, pop = pop r, lifeExp = lifeExp r, gdpPercap = gdpPercap r,
              pop_density = float_div (pop r) (area_km2 r)\<rparr>) df"

section \<open>The pipeline\<close>

text \<open>
  \<open>clean_world_data(df_raw, generate_report)\<close>. A column that is read and does not
  exist raises KeyError with its name: \<open>dropna\<close> names every missing identifier
  column, \<open>df["pop"]\<close> and the like name the one column. KeyError is the only
  exception of this development: an exception that a version of pandas raises on the
  values of the cells is not part of it.
\<close>

definition frame_before_imputation :: "(string \<Rightarrow> float option) \<Rightarrow> raw_table \<Rightarrow> float option row list" where
  "frame_before_imputation parse t =
     set_out_of_range_nan (step_C (step_B parse t (step_A (rows t))))"

definition clean_world_data ::
  "(string \<Rightarrow> float option) \<Rightarrow> raw_table \<Rightarrow> bool \<Rightarrow> error + (float option out_row list \<times> report)" where
  "clean_world_data parse t generate_report =
     (let missing = filter (\<lambda>c. c \<notin> set (columns t)) IDENTIFIER_COLS in
      if missing \<noteq> [] then Inl (KeyError missing)
      else
        let dfA = step_A (rows t);
            n_ids = length (rows t) - length dfA;
            dfB = step_B parse t dfA
        in
        if ''pop'' \<notin> set (columns t) then Inl (KeyError [''pop''])
        else if ''area_km2'' \<notin> set (columns t) then Inl (KeyError [''area_km2''])
        else if ''gdpPercap'' \<notin> set (columns t) then Inl (KeyError [''gdpPercap''])
        else
          let dfC = step_C dfB;
              n_invalid = length dfB - length dfC
          in
          if ''lifeExp'' \<notin> set (columns t) then Inl (KeyError [''lifeExp''])
          else
            let n_range = length (filter out_of_range dfC);
                dfC' = (if n_range \<noteq> 0 then set_out_of_range_nan dfC else dfC)
            in
            (case imputation_groupwise_median (columns t) dfC' lifeExp [''subregion'', ''continent''] of
               Inl e \<Rightarrow> Inl e
             | Inr (filled_l, counts_l) \<Rightarrow>
                let dfD1 = assign_lifeExp dfC' filled_l in
                (case imputation_groupwise_median (columns t) dfD1 gdpPercap [''subregion'', ''continent''] of
                   Inl e \<Rightarrow> Inl e
                 | Inr (filled_g, counts_g) \<Rightarrow>
                    let dfD = assign_gdpPercap dfD1 filled_g;
                        dfE = step_E dfD;
                        dfF = step_F dfE;
                        dfG = step_G dfF
                    in
                    Inr (dfG,
                         \<lparr>dropped_missing_identifiers = n_ids,
                          dropped_invalid_nonpositive = n_invalid,
                          lifeExp_out_of_range_set_nan = (if n_range \<noteq> 0 then Some n_range else None),
                          impute_lifeExp = Some counts_l,
                          impute_gdpPercap = Some counts_g,
                          dropped_missing_area_or_pop = length dfD - length dfE,
                          deduplicated_rows = length dfE - length dfF,
                          row_count = (if generate_report then Some (length dfG) else None)\<rparr>))))"

section \<open>Views of the stages used by the statements\<close>

text \<open>\<open>df[col] > 0\<close> for one value: false for NaN.\<close>

definition gt0 :: "float option \<Rightarrow> bool" where
  "gt0 v = (case v of None \<Rightarrow> False | Some x \<Rightarrow> Fin 0 < x)"

text \<open>
  What step B does to one row: a cell of an existing column of a dtype kind outside
  \<open>biufc\<close> goes through \<open>to_numeric_cell\<close>, any other cell is left alone.
\<close>

definition coerced_cell :: "(string \<Rightarrow> float option) \<Rightarrow> raw_table \<Rightarrow> string \<Rightarrow> cell \<Rightarrow> cell" where
  "coerced_cell parse t c x =
     (if c \<in> set (columns t) \<and> dtype_kind t c \<notin> set ''biufc'' then to_numeric_cell parse x else x)"

definition coerced_row :: "(string \<Rightarrow> float option) \<Rightarrow> raw_table \<Rightarrow> cell row \<Rightarrow> float option row" where
  "coerced_row parse t r =
     \<lparr>iso_a2 = iso_a2 r, name_long = name_long r, continent = continent r,
      region_un = region_un r, subregion = subregion r, type_col = type_col r,
      area_km2 = num (coerced_cell parse t ''area_km2'' (area_km2 r)),
      pop = num (coerced_cell parse t ''pop'' (pop r)),
      lifeExp = num (coerced_cell parse t ''lifeExp'' (lifeExp r)),
      gdpPercap = num (coerced_cell parse t ''gdpPercap'' (gdpPercap r))\<rparr>"

text \<open>The frame after steps A and B, on which the range filter works.\<close>

definition frame_coerced :: "(string \<Rightarrow> float option) \<Rightarrow> raw_table \<Rightarrow> float option row list" where
  "frame_coerced parse t = step_B parse t (step_A (rows t))"

text \<open>
  The value that the three tiers leave in a row, written with the medians of the
  column \<open>col\<close> of the frame \<open>df\<close> that the imputation was called on: the value itself
  when it is not null, else the first of the subregion median, the continent median
  and the global median that is not NaN.
\<close>

definition imputed_value ::
  "float option row list \<Rightarrow> (float option row \<Rightarrow> float option) \<Rightarrow> float option row \<Rightarrow> float option" where
  "imputed_value df col r =
     (case col r of
        Some x \<Rightarrow> Some x
      | None \<Rightarrow>
         (case tier_value (groupby_median subregion col df) subregion r of
            Some m \<Rightarrow> Some m
          | None \<Rightarrow>
             (case tier_value (groupby_median continent col df) continent r of
                Some m \<Rightarrow> Some m
              | None \<Rightarrow> median (notna_values col df))))"

definition impute_lifeExp_frame :: "float option row list \<Rightarrow> float option row list" where
  "impute_lifeExp_frame df = map (\<lambda>r. r\<lparr>lifeExp := imputed_value df lifeExp r\<rparr>) df"

definition impute_gdpPercap_frame :: "float option row list \<Rightarrow> float option row list" where
  "impute_gdpPercap_frame df = map (\<lambda>r. r\<lparr>gdpPercap := imputed_value df gdpPercap r\<rparr>) df"

definition frame_after_imputation :: "(string \<Rightarrow> float option) \<Rightarrow> raw_table \<Rightarrow> float option row list" where
  "frame_after_imputation parse t =
     impute_gdpPercap_frame (impute_lifeExp_frame (frame_before_imputation parse t))"

definition with_density :: "float option row \<Rightarrow> float option out_row" where
  "with_density r =
     \<lparr>iso_a2 = iso_a2 r, name_long = name_long r, continent = continent r,
      region_un = region_un r, subregion = subregion r, type_col = type_col r,
      area_km2 = area_km2 r, pop = pop r, lifeExp = lifeExp r, gdpPercap = gdpPercap r,
      pop_density = float_div (pop r) (area_km2 r)\<rparr>"

text \<open>Steps E to H on the frame that the imputation leaves, with the counters so far.\<close>

definition finish ::
  "float option row list \<Rightarrow> nat \<Rightarrow> nat \<Rightarrow> nat \<Rightarrow> tier_counts \<Rightarrow> tier_counts \<Rightarrow> bool
     \<Rightarrow> float option out_row list \<times> report" where
  "finish dfD n_ids n_invalid n_range cl cg g =
     (step_G (step_F (step_E dfD)),
      \<lparr>dropped_missing_identifiers = n_ids,
       dropped_invalid_nonpositive = n_invalid,
       lifeExp_out_of_range_set_nan = (if n_range \<noteq> 0 then Some n_range else None),
       impute_lifeExp = Some cl,
       impute_gdpPercap = Some cg,
       dropped_missing_area_or_pop = length dfD - length (step_E dfD),
       deduplicated_rows = length (step_E dfD) - length (step_F (step_E dfD)),
       row_count = (if g then Some (length (step_G (step_F (step_E dfD)))) else None)\<rparr>)"

section \<open>Concrete tables\<close>

text \<open>
  The columns that the loader promises (\<open>REQUIRED_COLUMNS\<close> of io_utils.py), and a row
  written in their order.
\<close>

definition REQUIRED_COLUMNS :: "string list" where
  "REQUIRED_COLUMNS =
     [''iso_a2'', ''name_long'', ''continent'', ''region_un'', ''subregion'', ''type'',
      ''area_km2'', ''pop'', ''lifeExp'', ''gdpPercap'']"

definition raw_row ::
  "string option \<Rightarrow> string option \<Rightarrow> string option \<Rightarrow> string option \<Rightarrow> string option
     \<Rightarrow> string option \<Rightarrow> cell \<Rightarrow> cell \<Rightarrow> cell \<Rightarrow> cell \<Rightarrow> cell row" where
  "raw_row i n c ru s ty a p l g =
     \<lparr>iso_a2 = i, name_long = n, continent = c, region_un = ru, subregion = s, type_col = ty,
      area_km2 = a, pop = p, lifeExp = l, gdpPercap = g\<rparr>"

definition clean_row ::
  "string \<Rightarrow> string \<Rightarrow> string \<Rightarrow> string \<Rightarrow> string \<Rightarrow> string
     \<Rightarrow> float option \<Rightarrow> float option \<Rightarrow> float option \<Rightarrow> float option \<Rightarrow> float option
     \<Rightarrow> float option out_row" where
  "clean_row i n c ru s ty a p l g d =
     \<lparr>iso_a2 = Some i, name_long = Some n, continent = Some c, region_un = Some ru,
      subregion = Some s, type_col = Some ty,
      area_km2 = a, pop = p, lifeExp = l, gdpPercap = g, pop_density = d\<rparr>"

text \<open>
  The fixture \<open>raw_df_for_cleaning\<close> of tests/conftest.py. Built from tuples, its
  columns of integers have dtype kind \<open>i\<close>, the column \<open>lifeExp\<close> with its None has
  kind \<open>f\<close>, and the text columns have kind \<open>O\<close>.
\<close>

definition fixture_kind :: "string \<Rightarrow> char" where
  "fixture_kind c =
     (if c = ''lifeExp'' then CHR ''f''
      else if c \<in> set [''area_km2'', ''pop'', ''gdpPercap''] then CHR ''i''
      else CHR ''O'')"

definition raw_df_for_cleaning :: raw_table where
  "raw_df_for_cleaning =
     \<lparr>columns = REQUIRED_COLUMNS, dtype_kind = fixture_kind,
      rows =
       [raw_row (Some ''AA'') (Some ''Alfa'') (Some ''Europe'') (Some ''Europe'')
          (Some ''Western Europe'') (Some ''Country'')
          (Number (Fin 1000)) (Number (Fin 1000000)) (Number (Fin 80)) (Number (Fin 50000)),
        raw_row (Some ''AA'') (Some ''Alfa'') (Some ''Europe'') (Some ''Europe'')
          (Some ''Western Europe'') (Some ''Country'')
          (Number (Fin 1000)) (Number (Fin 1000000)) Missing (Number (Fin 50000)),
        raw_row (Some ''BB'') (Some ''Bravo'') (Some ''Asia'') (Some ''Asia'')
          (Some ''Eastern Asia'') (Some ''Country'')
          (Number (Fin 0)) (Number (Fin 2000000)) (Number (Fin 76)) (Number (Fin 30000)),
        raw_row (Some ''CC'') (Some ''Charlie'') (Some ''Africa'') (Some ''Africa'')
          (Some ''Eastern Africa'') (Some ''Country'')
          (Number (Fin 3000)) (Number (Fin (- 10))) (Number (Fin 60)) (Number (Fin 2000)),
        raw_row (Some ''DD'') (Some ''Delta'') (Some ''Africa'') (Some ''Africa'')
          (Some ''Western Africa'') (Some ''Country'')
          (Number (Fin 4000)) (Number (Fin 500000)) (Number (Fin 140)) (Number (Fin 1800)),
        raw_row (Some ''EE'') None (Some ''Oceania'') (Some ''Oceania'')
          (Some ''Australia and New Zealand'') (Some ''Country'')
          (Number (Fin 7700)) (Number (Fin 25000000)) (Number (Fin 83)) (Number (Fin 45000)),
        raw_row None (Some ''Foxtrot'') (Some ''Americas'') (Some ''Americas'')
          (Some ''South America'') (Some ''Country'')
          (Number (Fin 8000)) (Number (Fin 44000000)) (Number (Fin 75)) (Number (Fin 12000))]\<rparr>"

text \<open>What the pipeline returns on the fixture.\<close>

definition fixture_clean :: "float option out_row list" where
  "fixture_clean =
     [clean_row ''AA'' ''Alfa'' ''Europe'' ''Europe'' ''Western Europe'' ''Country''
        (Some (Fin 1000)) (Some (Fin 1000000)) (Some (Fin 80)) (Some (Fin 50000)) (Some (Fin 1000)),
      clean_row ''DD'' ''Delta'' ''Africa'' ''Africa'' ''Western Africa'' ''Country''
        (Some (Fin 4000)) (Some (Fin 500000)) (Some (Fin 80)) (Some (Fin 1800)) (Some (Fin 125))]"

definition fixture_report :: report where
  "fixture_report =
     \<lparr>dropped_missing_identifiers = 2,
      dropped_invalid_nonpositive = 2,
      lifeExp_out_of_range_set_nan = Some 1,
      impute_lifeExp = Some \<lparr>by_subregion = 2, by_continent = 1, by_global = 1\<rparr>,
      impute_gdpPercap = Some \<lparr>by_subregion = 0, by_continent = 0, by_global = 0\<rparr>,
      dropped_missing_area_or_pop = 0,
      deduplicated_rows = 1,
      row_count = Some 2\<rparr>"

text \<open>A table of one record whose \<open>gdpPercap\<close> is NaN.\<close>

definition float_kind :: "string \<Rightarrow> char" where
  "float_kind c = (if c \<in> set NUMERIC_COLS then CHR ''f'' else CHR ''O'')"

definition gdp_null_table :: raw_table where
  "gdp_null_table =
     \<lparr>columns = REQUIRED_COLUMNS, dtype_kind = float_kind,
      rows =
       [raw_row (Some ''AA'') (Some ''Alfa'') (Some ''Europe'') (Some ''Europe'')
          (Some ''Western Europe'') (Some ''Country'')
          (Number (Fin 1000)) (Number (Fin 1000000)) (Number (Fin 80)) Missing]\<rparr>"

text \<open>A table of one record whose \<open>lifeExp\<close> is 140.\<close>

definition lifeExp_140_table :: raw_table where
  "lifeExp_140_table =
     \<lparr>columns = REQUIRED_COLUMNS, dtype_kind = float_kind,
      rows =
       [raw_row (Some ''DD'') (Some ''Delta'') (Some ''Africa'') (Some ''Africa'')
          (Some ''Western Africa'') (Some ''Country'')
          (Number (Fin 4000)) (Number (Fin 500000)) (Number (Fin 140)) (Number (Fin 1800))]\<rparr>"

text \<open>Frames after coercion, for the imputation alone.\<close>

definition frame_row :: "string \<Rightarrow> string option \<Rightarrow> string option \<Rightarrow> float option \<Rightarrow> float option row" where
  "frame_row i s c l =
     \<lparr>iso_a2 = Some i, name_long = Some i, continent = c, region_un = None, subregion = s,
      type_col = None, area_km2 = Some (Fin 1), pop = Some (Fin 1), lifeExp = l,
      gdpPercap = Some (Fin 1)\<rparr>"

text \<open>
  Five records of which three have a null \<open>lifeExp\<close>: the subregion S1 has the value
  10, the subregions S2 and S4 have none, the continent C1 has 10 and 50, the continent
  C2 has none.
\<close>

definition tier_frame :: "float option row list" where
  "tier_frame =
     [frame_row ''R1'' (Some ''S1'') (Some ''C1'') None,
      frame_row ''R2'' (Some ''S1'') (Some ''C1'') (Some (Fin 10)),
      frame_row ''R3'' (Some ''S2'') (Some ''C1'') None,
      frame_row ''R4'' (Some ''S3'') (Some ''C1'') (Some (Fin 50)),
      frame_row ''R5'' (Some ''S4'') (Some ''C2'') None]"

text \<open>One null \<open>lifeExp\<close>, in a subregion that has no value.\<close>

definition overcount_frame :: "float option row list" where
  "overcount_frame =
     [frame_row ''R1'' (Some ''S1'') (Some ''C1'') None,
      frame_row ''R2'' (Some ''S2'') (Some ''C1'') (Some (Fin 70))]"

text \<open>
  Two records of the country AA with the same fields but \<open>lifeExp\<close> and \<open>gdpPercap\<close>:
  the first has a null \<open>lifeExp\<close>, the second has all four numeric fields; a third
  record BB is in the same subregion.
\<close>

definition duplicate_table :: raw_table where
  "duplicate_table =
     \<lparr>columns = REQUIRED_COLUMNS, dtype_kind = float_kind,
      rows =
       [raw_row (Some ''AA'') (Some ''Alfa'') (Some ''Europe'') (Some ''Europe'')
          (Some ''Western Europe'') (Some ''Country'')
          (Number (Fin 1000)) (Number (Fin 1000000)) Missing (Number (Fin 40000)),
        raw_row (Some ''AA'') (Some ''Alfa'') (Some ''Europe'') (Some ''Europe'')
          (Some ''Western Europe'') (Some ''Country'')
          (Number (Fin 1000)) (Number (Fin 1000000)) (Number (Fin 80)) (Number (Fin 50000)),
        raw_row (Some ''BB'') (Some ''Bravo'') (Some ''Europe'') (Some ''Europe'')
          (Some ''Western Europe'') (Some ''Country'')
          (Number (Fin 2000)) (Number (Fin 2000000)) (Number (Fin 60)) (Number (Fin 30000))]\<rparr>"

text \<open>
  A parser for the examples of the coercion: a text of decimal digits is its number and
  any other text, such as one with a space inside, is NaN. On these two kinds of text
  \<open>pd.to_numeric\<close> answers the same.
\<close>

definition is_digit :: "char \<Rightarrow> bool" where
  "is_digit c = (48 \<le> (of_char c :: nat) \<and> (of_char c :: nat) \<le> 57)"

definition parse_digits :: "string \<Rightarrow> float option" where
  "parse_digits s =
     (if s \<noteq> [] \<and> list_all is_digit s
      then Some (Fin (real (foldl (\<lambda>n c. 10 * n + (of_char c - 48)) 0 s)))
      else None)"

text \<open>The text 5, U+00A0, 678.\<close>

definition nbsp_text :: string where
  "nbsp_text = [CHR ''5'', CHR 0xA0, CHR ''6'', CHR ''7'', CHR ''8'']"



text \<open>
  Four records for the range filter: AA is complete, BB has a null \<open>gdpPercap\<close>, CC a
  null \<open>pop\<close>, and DD the area 0.
\<close>

definition range_filter_table :: raw_table where
  "range_filter_table =
     \<lparr>columns = REQUIRED_COLUMNS, dtype_kind = float_kind,
      rows =
       [raw_row (Some ''AA'') (Some ''Alfa'') (Some ''Europe'') (Some ''Europe'')
          (Some ''Western Europe'') (Some ''Country'')
          (Number (Fin 1000)) (Number (Fin 1000000)) (Number (Fin 80)) (Number (Fin 50000)),
        raw_row (Some ''BB'') (Some ''Bravo'') (Some ''Europe'') (Some ''Europe'')
          (Some ''Western Europe'') (Some ''Country'')
          (Number (Fin 2000)) (Number (Fin 2000000)) (Number (Fin 76)) Missing,
        raw_row (Some ''CC'') (Some ''Charlie'') (Some ''Africa'') (Some ''Africa'')
          (Some ''Eastern Africa'') (Some ''Country'')
          (Number (Fin 3000)) Missing (Number (Fin 60)) (Number (Fin 2000)),
        raw_row (Some ''DD'') (Some ''Delta'') (Some ''Africa'') (Some ''Africa'')
          (Some ''Western Africa'') (Some ''Country'')
          (Number (Fin 0)) (Number (Fin 500000)) (Number (Fin 62)) (Number (Fin 1800))]\<rparr>"



section \<open>Lemmas on the stages\<close>

lemma zip_map_same: "zip xs (map f xs) = map (\<lambda>x. (x, f x)) xs"
  by (induction xs) simp_all

lemma coerce_column_map:
  "coerce_column parse t field c df = map (\<lambda>r. coerced_cell parse t c (field r)) df"
  by (simp add: coerce_column_def to_numeric_safe_def get_series_def coerced_cell_def)

lemma zip5_map:
  "zip xs (zip (map f1 xs) (zip (map f2 xs) (zip (map f3 xs) (map f4 xs)))) =
   map (\<lambda>x. (x, f1 x, f2 x, f3 x, f4 x)) xs"
  by (induction xs) simp_all

lemma step_B_map: "step_B parse t df = map (coerced_row parse t) df"
  unfolding step_B_def coerce_column_map zip5_map
  by (simp add: coerced_row_def comp_def)

lemma set_out_of_range_nan_none:
  "filter out_of_range df = [] \<Longrightarrow> set_out_of_range_nan df = df"
  by (induction df) (auto simp: set_out_of_range_nan_def split: if_splits)

lemma assign_lifeExp_map:
  "assign_lifeExp df (map f df) = map (\<lambda>r. r\<lparr>lifeExp := f r\<rparr>) df"
  by (simp add: assign_lifeExp_def zip_map_same)

lemma assign_gdpPercap_map:
  "assign_gdpPercap df (map f df) = map (\<lambda>r. r\<lparr>gdpPercap := f r\<rparr>) df"
  by (simp add: assign_gdpPercap_def zip_map_same)

lemma step_G_map: "step_G df = map with_density df"
  by (simp add: step_G_def with_density_def)

lemma float_order_simps [simp]:
  "Fin x \<le> Fin y \<longleftrightarrow> x \<le> y" "Fin x < Fin y \<longleftrightarrow> x < y"
  "MInf \<le> a" "a \<le> PInf" "\<not> PInf \<le> Fin x" "\<not> Fin x \<le> MInf" "\<not> PInf \<le> MInf"
  "Fin x < PInf" "MInf < Fin x" "MInf < PInf" "\<not> PInf < a" "\<not> a < MInf"
  by (cases a; auto simp: less_float_def less_eq_float_def)+

lemma median_Nil: "median [] = None"
  by (simp add: median_def)

lemma sort_nth_mem: "i < length xs \<Longrightarrow> sort xs ! i \<in> set xs"
  by (metis length_sort nth_mem set_sort)

text \<open>
  A property of floats that the mean of two values keeps is kept by the median of a
  list that is not empty.
\<close>

lemma median_closed:
  assumes ne: "xs \<noteq> []" and P: "\<forall>x\<in>set xs. P x"
    and mid: "\<And>a b. P a \<Longrightarrow> P b \<Longrightarrow> \<exists>m. map_option float_half (float_add a b) = Some m \<and> P m"
  shows "\<exists>m. median xs = Some m \<and> P m"
proof -
  have len: "0 < length xs" using ne by simp
  show ?thesis
  proof (cases "odd (length xs)")
    case True
    then have "median xs = Some (sort xs ! (length xs div 2))"
      using ne by (simp add: median_def Let_def)
    moreover have "length xs div 2 < length xs" using len by simp
    ultimately show ?thesis using P sort_nth_mem by blast
  next
    case False
    then have m: "median xs = map_option float_half
        (float_add (sort xs ! (length xs div 2 - 1)) (sort xs ! (length xs div 2)))"
      using ne by (simp add: median_def Let_def)
    have "length xs div 2 < length xs" "length xs div 2 - 1 < length xs" using len by arith+
    then have "P (sort xs ! (length xs div 2 - 1))" "P (sort xs ! (length xs div 2))"
      using P sort_nth_mem by blast+
    then show ?thesis using mid m by simp
  qed
qed

lemma mid_pos:
  assumes "Fin 0 < a" and "Fin 0 < b"
  shows "\<exists>m. map_option float_half (float_add a b) = Some m \<and> Fin 0 < m"
  using assms by (cases a; cases b) (simp_all add: float_add_def float_half_def)

lemma mid_in_range:
  assumes "Fin 0 < a \<and> a < Fin 120" and "Fin 0 < b \<and> b < Fin 120"
  shows "\<exists>m. map_option float_half (float_add a b) = Some m \<and> Fin 0 < m \<and> m < Fin 120"
  using assms by (cases a; cases b) (simp_all add: float_add_def float_half_def)

lemma set_notna_values: "set (notna_values col df) = {x. \<exists>r\<in>set df. col r = Some x}"
  by (auto simp: notna_values_def map_filter_def image_iff) force

lemma notna_values_empty: "notna_values col df = [] \<longleftrightarrow> (\<forall>r\<in>set df. col r = None)"
proof -
  have "notna_values col df = [] \<longleftrightarrow> set (notna_values col df) = {}" by simp
  also have "\<dots> \<longleftrightarrow> (\<forall>r\<in>set df. col r = None)"
    unfolding set_notna_values by (auto; metis not_None_eq)
  finally show ?thesis .
qed

lemma tier_value_closed:
  assumes tv: "tier_value (groupby_median key col df) key r = Some m"
    and P: "\<forall>r'\<in>set df. \<forall>x. col r' = Some x \<longrightarrow> P x"
    and mid: "\<And>a b. P a \<Longrightarrow> P b \<Longrightarrow> \<exists>m. map_option float_half (float_add a b) = Some m \<and> P m"
  shows "P m"
proof -
  from tv obtain k where k: "key r = Some k"
    and med: "median (notna_values col (filter (\<lambda>r. key r = Some k) df)) = Some m"
    by (auto simp: tier_value_def groupby_median_def split: option.splits if_splits)
  let ?xs = "notna_values col (filter (\<lambda>r. key r = Some k) df)"
  have ne: "?xs \<noteq> []" using med median_Nil by force
  have "\<forall>x\<in>set ?xs. P x" using P by (auto simp: set_notna_values)
  from median_closed[OF ne this mid] show ?thesis using med by auto
qed

lemma tier_value_all_null:
  assumes "\<forall>r'\<in>set df. col r' = None"
  shows "tier_value (groupby_median key col df) key r = None"
proof -
  have "notna_values col (filter Q df) = []" for Q
    using assms by (simp add: notna_values_empty)
  then show ?thesis
    by (auto simp: tier_value_def groupby_median_def median_Nil split: option.splits)
qed

lemma imputed_value_closed:
  assumes iv: "imputed_value df col r = Some m"
    and P: "\<forall>r'\<in>set df. \<forall>x. col r' = Some x \<longrightarrow> P x"
    and mid: "\<And>a b. P a \<Longrightarrow> P b \<Longrightarrow> \<exists>m. map_option float_half (float_add a b) = Some m \<and> P m"
    and r: "r \<in> set df"
  shows "P m"
proof (cases "col r")
  case (Some x)
  then show ?thesis using iv P r by (auto simp: imputed_value_def)
next
  case None
  show ?thesis
  proof (cases "tier_value (groupby_median subregion col df) subregion r")
    case s: (Some a)
    then have "m = a" using iv None by (simp add: imputed_value_def)
    then show ?thesis using tier_value_closed[OF s P mid] by simp
  next
    case s: None
    show ?thesis
    proof (cases "tier_value (groupby_median continent col df) continent r")
      case c: (Some a)
      then have "m = a" using iv None s by (simp add: imputed_value_def)
      then show ?thesis using tier_value_closed[OF c P mid] by simp
    next
      case c: None
      then have med: "median (notna_values col df) = Some m"
        using iv None s by (simp add: imputed_value_def)
      then have ne: "notna_values col df \<noteq> []" using median_Nil by force
      have "\<forall>x\<in>set (notna_values col df). P x" using P by (auto simp: set_notna_values)
      from median_closed[OF ne this mid] show ?thesis using med by auto
    qed
  qed
qed

lemma imputed_value_total:
  assumes ex: "\<exists>r'\<in>set df. col r' \<noteq> None"
    and P: "\<forall>r'\<in>set df. \<forall>x. col r' = Some x \<longrightarrow> P x"
    and mid: "\<And>a b. P a \<Longrightarrow> P b \<Longrightarrow> \<exists>m. map_option float_half (float_add a b) = Some m \<and> P m"
  shows "imputed_value df col r \<noteq> None"
proof -
  have ne: "notna_values col df \<noteq> []" using ex by (simp add: notna_values_empty)
  have "\<forall>x\<in>set (notna_values col df). P x" using P by (auto simp: set_notna_values)
  from median_closed[OF ne this mid] have "median (notna_values col df) \<noteq> None" by auto
  then show ?thesis by (auto simp: imputed_value_def split: option.splits)
qed

lemma imputed_value_all_null:
  assumes "\<forall>r'\<in>set df. col r' = None" and "r \<in> set df"
  shows "imputed_value df col r = None"
proof -
  have "notna_values col df = []" using assms(1) by (simp add: notna_values_empty)
  then have "median (notna_values col df) = None" by (simp add: median_Nil)
  then show ?thesis
    using assms tier_value_all_null[OF assms(1)]
    by (simp add: imputed_value_def)
qed

lemma tier_choice:
  "(if tier_idx med key r v then tier_value med key r else v) =
   (case v of Some x \<Rightarrow> Some x | None \<Rightarrow> tier_value med key r)"
  by (auto simp: tier_idx_def tier_value_def domIff split: option.splits)

lemma fill_tier_map:
  "fill_tier med key df (map f df) =
   map (\<lambda>r. case f r of Some x \<Rightarrow> Some x | None \<Rightarrow> tier_value med key r) df"
  by (simp add: fill_tier_def zip_map_same tier_choice)

lemma any_missing_map: "any_missing (map f df) \<longleftrightarrow> (\<exists>r\<in>set df. f r = None)"
  by (force simp: any_missing_def image_iff)

lemma imputation_closed_form:
  assumes "imputation_groupwise_median cols df col [''subregion'', ''continent''] = Inr (filled, counts)"
  shows "filled = map (imputed_value df col) df"
proof (cases "any_missing (map col df)")
  case False
  then have "filled = map col df"
    using assms by (simp add: imputation_groupwise_median_def)
  moreover have "\<forall>r\<in>set df. col r = imputed_value df col r"
    using False by (auto simp: any_missing_map imputed_value_def split: option.splits)
  ultimately show ?thesis by simp
next
  case m0: True
  define f1 where "f1 = (\<lambda>r. case col r of Some x \<Rightarrow> Some x | None \<Rightarrow> tier_value (groupby_median subregion col df) subregion r)"
  define f2 where "f2 = (\<lambda>r. case f1 r of Some x \<Rightarrow> Some x | None \<Rightarrow> tier_value (groupby_median continent col df) continent r)"
  have sub: "''subregion'' \<in> set cols"
  proof (rule ccontr)
    assume "''subregion'' \<notin> set cols"
    then have "imputation_groupwise_median cols df col [''subregion'', ''continent''] = Inl (KeyError [''subregion''])"
      using m0 by (simp add: imputation_groupwise_median_def)
    then show False using assms by simp
  qed
  have t1: "fill_tier (groupby_median subregion col df) subregion df (map col df) = map f1 df"
    by (simp add: fill_tier_map f1_def)
  show ?thesis
  proof (cases "any_missing (map f1 df)")
    case False
    then have "filled = map f1 df"
      using assms m0 sub t1 by (simp add: imputation_groupwise_median_def Let_def)
    moreover have "\<forall>r\<in>set df. f1 r = imputed_value df col r"
      using False by (auto simp: any_missing_map imputed_value_def f1_def split: option.splits)
    ultimately show ?thesis by simp
  next
    case m1: True
    have cont: "''continent'' \<in> set cols"
    proof (rule ccontr)
      assume "''continent'' \<notin> set cols"
      then have "imputation_groupwise_median cols df col [''subregion'', ''continent''] = Inl (KeyError [''continent''])"
        using m0 m1 sub t1 by (simp add: imputation_groupwise_median_def Let_def)
      then show False using assms by simp
    qed
    have t2: "fill_tier (groupby_median continent col df) continent df (map f1 df) = map f2 df"
      by (simp add: fill_tier_map f2_def)
    show ?thesis
    proof (cases "any_missing (map f2 df)")
      case False
      then have "filled = map f2 df"
        using assms m0 m1 sub cont t1 t2 by (simp add: imputation_groupwise_median_def Let_def)
      moreover have "\<forall>r\<in>set df. f2 r = imputed_value df col r"
        using False by (auto simp: any_missing_map imputed_value_def f1_def f2_def split: option.splits)
      ultimately show ?thesis by simp
    next
      case m2: True
      then have "filled = map (\<lambda>v. if v = None then median (notna_values col df) else v) (map f2 df)"
        using assms m0 m1 sub cont t1 t2 by (simp add: imputation_groupwise_median_def Let_def)
      moreover have "\<forall>r\<in>set df. (if f2 r = None then median (notna_values col df) else f2 r) = imputed_value df col r"
        by (auto simp: imputed_value_def f1_def f2_def split: option.splits)
      ultimately show ?thesis by simp
    qed
  qed
qed

lemma first_index_less:
  "\<exists>x\<in>set xs. P x \<Longrightarrow> first_index P xs < length xs"
  by (induction xs) auto

lemma first_index_sat:
  "\<exists>x\<in>set xs. P x \<Longrightarrow> P (xs ! first_index P xs)"
  by (induction xs) auto

lemma first_index_least:
  "i < first_index P xs \<Longrightarrow> \<not> P (xs ! i)"
proof (induction xs arbitrary: i)
  case Nil
  then show ?case by simp
next
  case (Cons x xs)
  then show ?case by (cases i) (auto split: if_splits)
qed

lemma idxmax_less: "cs \<noteq> [] \<Longrightarrow> idxmax cs < length cs"
  unfolding idxmax_def by (rule first_index_less) (metis List.finite_set Max_in set_empty)

lemma choose_row_mem:
  assumes "choose_row_with_more_non_nulls grp cols = Some r"
  shows "r \<in> set grp"
proof -
  have ne: "grp \<noteq> []" and r: "r = grp ! idxmax (map (non_null_count cols) grp)"
    using assms by (auto simp: choose_row_with_more_non_nulls_def split: if_splits)
  have "idxmax (map (non_null_count cols) grp) < length grp"
    using idxmax_less[of "map (non_null_count cols) grp"] ne by simp
  then show ?thesis using r by simp
qed

lemma keep_of_group_subset: "set (keep_of_group grp) \<subseteq> set grp"
proof (cases "length grp = 1")
  case True
  then have "grp \<noteq> []" by auto
  then show ?thesis using True by (simp add: keep_of_group_def)
next
  case False
  then show ?thesis
    using choose_row_mem[of grp NUMERIC_COLS]
    by (cases "choose_row_with_more_non_nulls grp NUMERIC_COLS") (simp_all add: keep_of_group_def)
qed

lemma keep_of_group_length: "length (keep_of_group grp) \<le> 1"
  by (simp add: keep_of_group_def split: option.splits)

lemma keep_of_group_distinct: "distinct (map f (keep_of_group grp))"
  by (simp add: keep_of_group_def split: option.splits)

lemma keep_of_group_filter:
  assumes "r \<in> set (keep_of_group (filter P df))"
  shows "P r \<and> r \<in> set df"
proof -
  have "r \<in> set (filter P df)"
    using assms keep_of_group_subset[of "filter P df"] by (rule_tac subsetD)
  then show ?thesis by simp
qed

lemma kept_groups_labels:
  "r \<in> set (concat (map (\<lambda>k. keep_of_group (filter (\<lambda>r. iso_a2 r = Some k) df)) ks))
   \<Longrightarrow> iso_a2 r \<in> Some ` set ks"
proof (induction ks)
  case Nil
  then show ?case by simp
next
  case (Cons k ks)
  from Cons.prems have "r \<in> set (keep_of_group (filter (\<lambda>r. iso_a2 r = Some k) df))
     \<or> r \<in> set (concat (map (\<lambda>k. keep_of_group (filter (\<lambda>r. iso_a2 r = Some k) df)) ks))"
    by simp
  then show ?case
  proof
    assume "r \<in> set (keep_of_group (filter (\<lambda>r. iso_a2 r = Some k) df))"
    then have "iso_a2 r = Some k" by (rule keep_of_group_filter[THEN conjunct1])
    then show ?thesis by simp
  next
    assume "r \<in> set (concat (map (\<lambda>k. keep_of_group (filter (\<lambda>r. iso_a2 r = Some k) df)) ks))"
    then have "iso_a2 r \<in> Some ` set ks" by (rule Cons.IH)
    then show ?thesis by auto
  qed
qed


lemma kept_groups_distinct:
  "distinct ks \<Longrightarrow>
   distinct (map iso_a2 (concat (map (\<lambda>k. keep_of_group (filter (\<lambda>r. iso_a2 r = Some k) df)) ks)))"
proof (induction ks)
  case Nil
  then show ?case by simp
next
  case (Cons k ks)
  let ?K = "keep_of_group (filter (\<lambda>r. iso_a2 r = Some k) df)"
  let ?R = "concat (map (\<lambda>k. keep_of_group (filter (\<lambda>r. iso_a2 r = Some k) df)) ks)"
  have k: "k \<notin> set ks" and dks: "distinct ks" using Cons.prems by simp_all
  have dK: "distinct (map iso_a2 ?K)" by (rule keep_of_group_distinct)
  have dR: "distinct (map iso_a2 ?R)" using Cons.IH[OF dks] .
  have disj: "set (map iso_a2 ?K) \<inter> set (map iso_a2 ?R) = {}"
  proof (rule ccontr)
    assume "set (map iso_a2 ?K) \<inter> set (map iso_a2 ?R) \<noteq> {}"
    then obtain v where v1: "v \<in> set (map iso_a2 ?K)" and v2: "v \<in> set (map iso_a2 ?R)" by blast
    from v1 obtain a where a: "a \<in> set ?K" "v = iso_a2 a" by (auto simp del: set_concat)
    from v2 obtain b where b: "b \<in> set ?R" "v = iso_a2 b" by (auto simp del: set_concat)
    have "v = Some k" using a keep_of_group_filter[of a "\<lambda>r. iso_a2 r = Some k" df] by simp
    moreover have "v \<in> Some ` set ks" using b kept_groups_labels by blast
    ultimately show False using k by blast
  qed
  have "distinct (map iso_a2 (?K @ ?R))"
    unfolding map_append distinct_append using dK dR disj by blast
  then show ?case by (simp del: set_concat map_append distinct_append)
qed


lemma step_F_subset: "set (step_F df) \<subseteq> set df"
proof
  fix r assume r: "r \<in> set (step_F df)"
  show "r \<in> set df"
  proof (cases "distinct (map iso_a2 df)")
    case True
    then show ?thesis using r by (simp add: step_F_def)
  next
    case False
    then have "r \<in> set (concat (map keep_of_group (groupby_iso_a2 df)))"
      using r by (simp add: step_F_def)
    then obtain g where g: "g \<in> set (groupby_iso_a2 df)" and rg: "r \<in> set (keep_of_group g)"
      by auto
    from g obtain P where "g = filter P df"
      by (auto simp: groupby_iso_a2_def split: if_splits)
    then show ?thesis using rg keep_of_group_filter by blast
  qed
qed

lemma step_F_distinct: "distinct (map iso_a2 (step_F df))"
proof (cases "distinct (map iso_a2 df)")
  case True
  then show ?thesis by (simp add: step_F_def)
next
  case False
  let ?ks = "sort (remdups (List.map_filter iso_a2 df))"
  let ?A = "concat (map (\<lambda>k. keep_of_group (filter (\<lambda>r. iso_a2 r = Some k) df)) ?ks)"
  let ?B = "keep_of_group (filter (\<lambda>r. iso_a2 r = None) df)"
  have A: "distinct (map iso_a2 ?A)" by (rule kept_groups_distinct) simp
  have B: "distinct (map iso_a2 ?B)" by (rule keep_of_group_distinct)
  have disj: "set (map iso_a2 ?A) \<inter> set (map iso_a2 ?B) = {}"
  proof (rule ccontr)
    assume "set (map iso_a2 ?A) \<inter> set (map iso_a2 ?B) \<noteq> {}"
    then obtain v where v1: "v \<in> set (map iso_a2 ?A)" and v2: "v \<in> set (map iso_a2 ?B)" by blast
    from v1 obtain a where a: "a \<in> set ?A" "v = iso_a2 a" by (auto simp del: set_concat)
    from v2 obtain b where b: "b \<in> set ?B" "v = iso_a2 b" by (auto simp del: set_concat)
    have "v = None" using b keep_of_group_filter[of b "\<lambda>r. iso_a2 r = None" df] by simp
    moreover have "v \<in> Some ` set ?ks" using a kept_groups_labels by blast
    ultimately show False by blast
  qed
  have AB: "distinct (map iso_a2 (?A @ ?B))"
    unfolding map_append distinct_append using A B disj by blast
  have eq: "step_F df = ?A @ (if None \<in> set (map iso_a2 df) then ?B else [])"
    using False unfolding step_F_def groupby_iso_a2_def
    by (simp add: comp_def del: set_concat set_map)
  show ?thesis
  proof (cases "None \<in> set (map iso_a2 df)")
    case True
    then show ?thesis using AB eq by (simp only: if_True)
  next
    case False
    then show ?thesis using A eq by (simp only: if_False append_Nil2)
  qed
qed

lemma clean_world_data_columns:
  assumes "clean_world_data parse t g = Inr x"
  shows "filter (\<lambda>c. c \<notin> set (columns t)) IDENTIFIER_COLS = []"
    and "''pop'' \<in> set (columns t)" and "''area_km2'' \<in> set (columns t)"
    and "''gdpPercap'' \<in> set (columns t)" and "''lifeExp'' \<in> set (columns t)"
proof -
  show 1: "filter (\<lambda>c. c \<notin> set (columns t)) IDENTIFIER_COLS = []"
  proof (rule ccontr)
    assume "filter (\<lambda>c. c \<notin> set (columns t)) IDENTIFIER_COLS \<noteq> []"
    then have "clean_world_data parse t g = Inl (KeyError (filter (\<lambda>c. c \<notin> set (columns t)) IDENTIFIER_COLS))"
      by (simp add: clean_world_data_def)
    then show False using assms by simp
  qed
  show 2: "''pop'' \<in> set (columns t)"
  proof (rule ccontr)
    assume "''pop'' \<notin> set (columns t)"
    then have "clean_world_data parse t g = Inl (KeyError [''pop''])"
      using 1 by (simp add: clean_world_data_def)
    then show False using assms by simp
  qed
  show 3: "''area_km2'' \<in> set (columns t)"
  proof (rule ccontr)
    assume "''area_km2'' \<notin> set (columns t)"
    then have "clean_world_data parse t g = Inl (KeyError [''area_km2''])"
      using 1 2 by (simp add: clean_world_data_def)
    then show False using assms by simp
  qed
  show 4: "''gdpPercap'' \<in> set (columns t)"
  proof (rule ccontr)
    assume "''gdpPercap'' \<notin> set (columns t)"
    then have "clean_world_data parse t g = Inl (KeyError [''gdpPercap''])"
      using 1 2 3 by (simp add: clean_world_data_def)
    then show False using assms by simp
  qed
  show "''lifeExp'' \<in> set (columns t)"
  proof (rule ccontr)
    assume "''lifeExp'' \<notin> set (columns t)"
    then have "clean_world_data parse t g = Inl (KeyError [''lifeExp''])"
      using 1 2 3 4 by (simp add: clean_world_data_def)
    then show False using assms by simp
  qed
qed

lemma clean_world_data_unfold:
  assumes "filter (\<lambda>c. c \<notin> set (columns t)) IDENTIFIER_COLS = []"
    and "''pop'' \<in> set (columns t)" and "''area_km2'' \<in> set (columns t)"
    and "''gdpPercap'' \<in> set (columns t)" and "''lifeExp'' \<in> set (columns t)"
  shows "clean_world_data parse t g =
    (case imputation_groupwise_median (columns t) (frame_before_imputation parse t) lifeExp
            [''subregion'', ''continent''] of
       Inl e \<Rightarrow> Inl e
     | Inr (fl, cl) \<Rightarrow>
        (case imputation_groupwise_median (columns t)
                (assign_lifeExp (frame_before_imputation parse t) fl) gdpPercap
                [''subregion'', ''continent''] of
           Inl e \<Rightarrow> Inl e
         | Inr (fg, cg) \<Rightarrow>
            Inr (finish (assign_gdpPercap (assign_lifeExp (frame_before_imputation parse t) fl) fg)
                   (length (rows t) - length (step_A (rows t)))
                   (length (frame_coerced parse t) - length (step_C (frame_coerced parse t)))
                   (length (filter out_of_range (step_C (frame_coerced parse t))))
                   cl cg g)))"
proof -
  have eqC: "(if length (filter out_of_range dfC) \<noteq> 0 then set_out_of_range_nan dfC else dfC)
      = set_out_of_range_nan dfC" for dfC
    by (simp add: set_out_of_range_nan_none)
  show ?thesis
    unfolding clean_world_data_def Let_def eqC
    using assms
    by (simp add: frame_before_imputation_def frame_coerced_def finish_def
          split: sum.splits prod.splits)
qed

lemma clean_world_data_Inr:
  assumes "clean_world_data parse t g = Inr (out, rep)"
  shows "\<exists>cl cg. (out, rep) =
     finish (frame_after_imputation parse t)
       (length (rows t) - length (step_A (rows t)))
       (length (frame_coerced parse t) - length (step_C (frame_coerced parse t)))
       (length (filter out_of_range (step_C (frame_coerced parse t)))) cl cg g"
proof -
  let ?df0 = "frame_before_imputation parse t"
  note cols = clean_world_data_columns[OF assms]
  note unf = clean_world_data_unfold[OF cols, of parse g]
  show ?thesis
  proof (cases "imputation_groupwise_median (columns t) ?df0 lifeExp [''subregion'', ''continent'']")
    case (Inl e)
    then show ?thesis using unf assms by simp
  next
    case (Inr p1)
    obtain fl cl where p1: "p1 = (fl, cl)" by (cases p1)
    have fl: "fl = map (imputed_value ?df0 lifeExp) ?df0"
      using imputation_closed_form Inr p1 by blast
    have a1: "assign_lifeExp ?df0 fl = impute_lifeExp_frame ?df0"
      unfolding fl by (simp add: assign_lifeExp_map impute_lifeExp_frame_def)
    show ?thesis
    proof (cases "imputation_groupwise_median (columns t) (impute_lifeExp_frame ?df0) gdpPercap [''subregion'', ''continent'']")
      case (Inl e)
      then show ?thesis using unf assms Inr p1 a1 by simp
    next
      case i2: (Inr p2)
      obtain fg cg where p2: "p2 = (fg, cg)" by (cases p2)
      have fg: "fg = map (imputed_value (impute_lifeExp_frame ?df0) gdpPercap) (impute_lifeExp_frame ?df0)"
        using imputation_closed_form i2 p2 by blast
      have a2: "assign_gdpPercap (impute_lifeExp_frame ?df0) fg = frame_after_imputation parse t"
        unfolding fg by (simp add: assign_gdpPercap_map impute_gdpPercap_frame_def frame_after_imputation_def)
      have "clean_world_data parse t g = Inr (finish (frame_after_imputation parse t)
           (length (rows t) - length (step_A (rows t)))
           (length (frame_coerced parse t) - length (step_C (frame_coerced parse t)))
           (length (filter out_of_range (step_C (frame_coerced parse t)))) cl cg g)"
        using unf Inr p1 a1 i2 p2 a2 by simp
      then show ?thesis using assms by auto
    qed
  qed
qed

lemma clean_world_data_out:
  assumes "clean_world_data parse t g = Inr (out, rep)"
  shows "out = map with_density (step_F (step_E (frame_after_imputation parse t)))"
  using clean_world_data_Inr[OF assms] by (auto simp: finish_def step_G_map)

lemma out_row_origin:
  assumes "clean_world_data parse t g = Inr (out, rep)" and "y \<in> set out"
  shows "\<exists>r\<in>set (frame_after_imputation parse t).
           area_km2 r \<noteq> None \<and> pop r \<noteq> None \<and> y = with_density r"
proof -
  from assms obtain r where r: "r \<in> set (step_F (step_E (frame_after_imputation parse t)))"
    and y: "y = with_density r"
    unfolding clean_world_data_out[OF assms(1)] by auto
  have "r \<in> set (step_E (frame_after_imputation parse t))" using r step_F_subset by blast
  then show ?thesis using y by (auto simp: step_E_def)
qed

lemma frame_before_row:
  assumes "r \<in> set (frame_before_imputation parse t)"
  shows "iso_a2 r \<noteq> None \<and> name_long r \<noteq> None \<and> \<not> le0 (pop r) \<and> \<not> le0 (area_km2 r)
         \<and> \<not> le0 (gdpPercap r) \<and> \<not> out_of_range r"
proof -
  from assms obtain r1 where r1: "r1 \<in> set (step_C (step_B parse t (step_A (rows t))))"
    and r: "r = (if out_of_range r1 then r1\<lparr>lifeExp := None\<rparr> else r1)"
    by (auto simp: frame_before_imputation_def set_out_of_range_nan_def)
  from r1 have inv: "\<not> invalid_mask r1" and "r1 \<in> set (step_B parse t (step_A (rows t)))"
    by (simp_all add: step_C_def)
  then obtain r2 where r2: "r2 \<in> set (step_A (rows t))" and r12: "r1 = coerced_row parse t r2"
    by (auto simp: step_B_map)
  have ids: "iso_a2 r1 \<noteq> None \<and> name_long r1 \<noteq> None"
    using r2 r12 by (simp add: step_A_def coerced_row_def)
  show ?thesis
    using ids inv r by (auto simp: invalid_mask_def out_of_range_def)
qed

lemma frame_after_row:
  assumes "r \<in> set (frame_after_imputation parse t)"
  shows "\<exists>r0\<in>set (frame_before_imputation parse t).
           iso_a2 r = iso_a2 r0 \<and> name_long r = name_long r0 \<and> area_km2 r = area_km2 r0
           \<and> pop r = pop r0
           \<and> lifeExp r = imputed_value (frame_before_imputation parse t) lifeExp r0
           \<and> (\<exists>r1\<in>set (impute_lifeExp_frame (frame_before_imputation parse t)).
                 gdpPercap r1 = gdpPercap r0
                 \<and> gdpPercap r = imputed_value (impute_lifeExp_frame (frame_before_imputation parse t)) gdpPercap r1)"
  using assms
  by (fastforce simp: frame_after_imputation_def impute_gdpPercap_frame_def impute_lifeExp_frame_def)

lemma impute_lifeExp_frame_gdp:
  "r1 \<in> set (impute_lifeExp_frame df) \<Longrightarrow> \<exists>r0\<in>set df. gdpPercap r1 = gdpPercap r0"
  by (auto simp: impute_lifeExp_frame_def)

lemma impute_lifeExp_frame_gdp':
  "r0 \<in> set df \<Longrightarrow> \<exists>r1\<in>set (impute_lifeExp_frame df). gdpPercap r1 = gdpPercap r0"
  by (force simp: impute_lifeExp_frame_def)

lemma gt0_iff: "gt0 v \<longleftrightarrow> v \<noteq> None \<and> \<not> le0 v"
  by (cases v) (auto simp: gt0_def le0_def)

lemma with_density_fields [simp]:
  "iso_a2 (with_density r) = iso_a2 r" "name_long (with_density r) = name_long r"
  "area_km2 (with_density r) = area_km2 r" "pop (with_density r) = pop r"
  "lifeExp (with_density r) = lifeExp r" "gdpPercap (with_density r) = gdpPercap r"
  "pop_density (with_density r) = float_div (pop r) (area_km2 r)"
  by (simp_all add: with_density_def)

lemma imputed_pos:
  assumes "imputed_value df col r = Some m"
    and "\<forall>r'\<in>set df. \<forall>x. col r' = Some x \<longrightarrow> Fin 0 < x" and "r \<in> set df"
  shows "Fin 0 < m"
proof (rule imputed_value_closed[where P = "\<lambda>x. Fin 0 < x" and df = df and col = col and r = r])
  show "imputed_value df col r = Some m" by fact
  show "\<forall>r'\<in>set df. \<forall>x. col r' = Some x \<longrightarrow> Fin 0 < x" by fact
  show "\<exists>m. map_option float_half (float_add a b) = Some m \<and> Fin 0 < m"
    if "Fin 0 < a" "Fin 0 < b" for a b using that by (rule mid_pos)
  show "r \<in> set df" by fact
qed

lemma imputed_in_range:
  assumes "imputed_value df col r = Some m"
    and "\<forall>r'\<in>set df. \<forall>x. col r' = Some x \<longrightarrow> Fin 0 < x \<and> x < Fin 120" and "r \<in> set df"
  shows "Fin 0 < m \<and> m < Fin 120"
proof (rule imputed_value_closed[where P = "\<lambda>x. Fin 0 < x \<and> x < Fin 120" and df = df and col = col and r = r])
  show "imputed_value df col r = Some m" by fact
  show "\<forall>r'\<in>set df. \<forall>x. col r' = Some x \<longrightarrow> Fin 0 < x \<and> x < Fin 120" by fact
  show "\<exists>m. map_option float_half (float_add a b) = Some m \<and> Fin 0 < m \<and> m < Fin 120"
    if "Fin 0 < a \<and> a < Fin 120" "Fin 0 < b \<and> b < Fin 120" for a b using that by (rule mid_in_range)
  show "r \<in> set df" by fact
qed

lemma imputed_total_pos:
  assumes "\<exists>r'\<in>set df. col r' \<noteq> None"
    and "\<forall>r'\<in>set df. \<forall>x. col r' = Some x \<longrightarrow> Fin 0 < x"
  shows "imputed_value df col r \<noteq> None"
proof (rule imputed_value_total[where P = "\<lambda>x. Fin 0 < x"])
  show "\<exists>r'\<in>set df. col r' \<noteq> None" by fact
  show "\<forall>r'\<in>set df. \<forall>x. col r' = Some x \<longrightarrow> Fin 0 < x" by fact
  show "\<exists>m. map_option float_half (float_add a b) = Some m \<and> Fin 0 < m"
    if "Fin 0 < a" "Fin 0 < b" for a b using that by (rule mid_pos)
qed

lemma frame_lifeExp_range:
  "\<forall>r'\<in>set (frame_before_imputation parse t). \<forall>x. lifeExp r' = Some x \<longrightarrow> Fin 0 < x \<and> x < Fin 120"
proof (intro ballI allI impI)
  fix r' x assume r': "r' \<in> set (frame_before_imputation parse t)" and x: "lifeExp r' = Some x"
  have "\<not> out_of_range r'" using frame_before_row[OF r'] by simp
  then show "Fin 0 < x \<and> x < Fin 120" using x by (simp add: out_of_range_def not_le)
qed

lemma frame_lifeExp_pos:
  "\<forall>r'\<in>set (frame_before_imputation parse t). \<forall>x. lifeExp r' = Some x \<longrightarrow> Fin 0 < x"
  using frame_lifeExp_range by blast

lemma frame_gdp_pos:
  "\<forall>r'\<in>set (impute_lifeExp_frame (frame_before_imputation parse t)).
     \<forall>x. gdpPercap r' = Some x \<longrightarrow> Fin 0 < x"
proof (intro ballI allI impI)
  fix r' x
  assume "r' \<in> set (impute_lifeExp_frame (frame_before_imputation parse t))"
    and x: "gdpPercap r' = Some x"
  then obtain r0 where r0: "r0 \<in> set (frame_before_imputation parse t)" "gdpPercap r' = gdpPercap r0"
    using impute_lifeExp_frame_gdp by blast
  have "\<not> le0 (gdpPercap r0)" using frame_before_row[OF r0(1)] by simp
  then have "\<not> le0 (Some x)" using r0(2) x by simp
  then show "Fin 0 < x" by (simp add: le0_def not_le)
qed

lemma out_gdp_cases:
  assumes "clean_world_data parse t g = Inr (out, rep)" and "y \<in> set out"
  shows "gdpPercap y = None \<or> gt0 (gdpPercap y)"
proof -
  let ?D0 = "frame_before_imputation parse t"
  let ?D1 = "impute_lifeExp_frame ?D0"
  from out_row_origin[OF assms] obtain r where r: "r \<in> set (frame_after_imputation parse t)"
    and y: "y = with_density r" by blast
  from frame_after_row[OF r] obtain r1 where r1: "r1 \<in> set ?D1"
    and g: "gdpPercap r = imputed_value ?D1 gdpPercap r1" by blast
  show ?thesis
  proof (cases "gdpPercap r")
    case None
    then show ?thesis using y by simp
  next
    case (Some m)
    then have "imputed_value ?D1 gdpPercap r1 = Some m" using g by simp
    then have "Fin 0 < m" using frame_gdp_pos r1 by (rule imputed_pos)
    then show ?thesis using Some y by (simp add: gt0_def)
  qed
qed

lemma out_lifeExp_range:
  assumes "clean_world_data parse t g = Inr (out, rep)" and "y \<in> set out"
  shows "\<not> out_of_range y"
proof -
  let ?D0 = "frame_before_imputation parse t"
  from out_row_origin[OF assms] obtain r where r: "r \<in> set (frame_after_imputation parse t)"
    and y: "y = with_density r" by blast
  from frame_after_row[OF r] obtain r0 where r0: "r0 \<in> set ?D0"
    and l: "lifeExp r = imputed_value ?D0 lifeExp r0" by blast
  show ?thesis
  proof (cases "lifeExp r")
    case None
    then show ?thesis using y by (simp add: out_of_range_def)
  next
    case (Some m)
    then have "imputed_value ?D0 lifeExp r0 = Some m" using l by simp
    then have "Fin 0 < m \<and> m < Fin 120" using frame_lifeExp_range r0 by (rule imputed_in_range)
    then show ?thesis using Some y by (simp add: out_of_range_def not_le)
  qed
qed

lemma out_row_positive:
  assumes "clean_world_data parse t g = Inr (out, rep)" and "y \<in> set out"
  shows "gt0 (area_km2 y) \<and> gt0 (pop y) \<and> pop_density y = float_div (pop y) (area_km2 y)"
proof -
  from out_row_origin[OF assms] obtain r where r: "r \<in> set (frame_after_imputation parse t)"
    and nn: "area_km2 r \<noteq> None" "pop r \<noteq> None" and yw: "y = with_density r" by blast
  from frame_after_row[OF r] obtain r0 where r0: "r0 \<in> set (frame_before_imputation parse t)"
    and eq: "area_km2 r = area_km2 r0" "pop r = pop r0" by blast
  show ?thesis using frame_before_row[OF r0] eq nn yw by (simp add: gt0_iff)
qed

lemma frame_after_fields:
  "map (\<lambda>r. (iso_a2 r, name_long r, area_km2 r, pop r)) (frame_after_imputation parse t)
   = map (\<lambda>r. (iso_a2 r, name_long r, area_km2 r, pop r)) (step_C (frame_coerced parse t))"
  by (simp add: frame_after_imputation_def impute_gdpPercap_frame_def impute_lifeExp_frame_def
        frame_before_imputation_def set_out_of_range_nan_def frame_coerced_def comp_def)

lemma frame_after_length:
  "length (frame_after_imputation parse t) = length (step_C (frame_coerced parse t))"
  using arg_cong[OF frame_after_fields[of parse t], of length] by (simp only: length_map)

lemma length_filter_compl: "length xs - length (filter P xs) = length (filter (\<lambda>x. \<not> P x) xs)"
  using sum_length_filter_compl[of P xs] by simp

lemma length_filter_via_map:
  "length (filter (\<lambda>x. Q (f x)) xs) = length (filter Q (map f xs))"
  by (simp add: filter_map comp_def)

lemma missing_area_or_pop_count:
  "length (frame_after_imputation parse t) - length (step_E (frame_after_imputation parse t))
   = length (filter (\<lambda>r. area_km2 r = None \<or> pop r = None) (step_C (frame_coerced parse t)))"
proof -
  let ?f = "\<lambda>r. (iso_a2 r, name_long r, area_km2 r, pop r)"
  let ?Q = "\<lambda>(i :: string option, n :: string option, a :: float option, p :: float option). a = None \<or> p = None"
  have "length (frame_after_imputation parse t) - length (step_E (frame_after_imputation parse t))
      = length (filter (\<lambda>r. \<not> (area_km2 r \<noteq> None \<and> pop r \<noteq> None)) (frame_after_imputation parse t))"
    unfolding step_E_def by (rule length_filter_compl)
  also have "\<dots> = length (filter (\<lambda>r. ?Q (?f r)) (frame_after_imputation parse t))"
    by simp
  also have "\<dots> = length (filter ?Q (map ?f (frame_after_imputation parse t)))"
    by (rule length_filter_via_map)
  also have "\<dots> = length (filter ?Q (map ?f (step_C (frame_coerced parse t))))"
    by (simp only: frame_after_fields)
  also have "\<dots> = length (filter (\<lambda>r. ?Q (?f r)) (step_C (frame_coerced parse t)))"
    by (rule length_filter_via_map[symmetric])
  also have "\<dots> = length (filter (\<lambda>r. area_km2 r = None \<or> pop r = None) (step_C (frame_coerced parse t)))"
    by simp
  finally show ?thesis .
qed

lemma invalid_mask_iff:
  "invalid_mask r \<longleftrightarrow>
     (\<exists>x. pop r = Some x \<and> x \<le> Fin 0) \<or> (\<exists>x. area_km2 r = Some x \<and> x \<le> Fin 0)
     \<or> (\<exists>x. gdpPercap r = Some x \<and> x \<le> Fin 0)"
  by (auto simp: invalid_mask_def le0_def split: option.splits)

lemma out_of_range_iff:
  "out_of_range r \<longleftrightarrow> (\<exists>x. lifeExp r = Some x \<and> \<not> (Fin 0 < x \<and> x < Fin 120))"
  by (auto simp: out_of_range_def split: option.splits)

lemma report_counters:
  assumes "clean_world_data parse t g = Inr (out, rep)"
  shows "dropped_invalid_nonpositive rep =
           length (frame_coerced parse t) - length (step_C (frame_coerced parse t))"
    and "lifeExp_out_of_range_set_nan rep =
           (if length (filter out_of_range (step_C (frame_coerced parse t))) \<noteq> 0
            then Some (length (filter out_of_range (step_C (frame_coerced parse t)))) else None)"
    and "dropped_missing_area_or_pop rep =
           length (frame_after_imputation parse t) - length (step_E (frame_after_imputation parse t))"
  using clean_world_data_Inr[OF assms] by (auto simp: finish_def)





lemma to_numeric_safe_numeric:
  "kind s \<in> set ''biufc'' \<Longrightarrow> to_numeric_safe parse s = s"
  by (simp add: to_numeric_safe_def)

lemma set_strip: "set (strip xs) \<subseteq> set xs"
proof
  fix x assume "x \<in> set (strip xs)"
  then have "x \<in> set (dropWhile is_space (rev (dropWhile is_space xs)))"
    by (simp add: strip_def)
  then have "x \<in> set (rev (dropWhile is_space xs))" by (rule set_dropWhileD)
  then have "x \<in> set (dropWhile is_space xs)" by simp
  then show "x \<in> set xs" by (rule set_dropWhileD)
qed

lemma cleaned_text_no_comma: "CHR '','' \<notin> set (cleaned_text s)"
proof
  assume "CHR '','' \<in> set (cleaned_text s)"
  then have "CHR '','' \<in> set (remove_commas (replace_nbsp s))"
    unfolding cleaned_text_def using set_strip by blast
  then show False by (simp add: remove_commas_def)
qed

lemma to_numeric_cell_unparsed:
  "parse (cleaned_text s) = None \<Longrightarrow> to_numeric_cell parse (Text s) = Missing"
  by (simp add: to_numeric_cell_def Let_def)

lemma is_space_simps:
  "is_space (CHR '' '')" "\<not> is_space (CHR ''5'')" "\<not> is_space (CHR ''8'')"
  by (simp_all add: is_space_def)

lemma cleaned_nbsp_text: "cleaned_text nbsp_text = ''5 678''"
  by (simp add: cleaned_text_def nbsp_text_def replace_nbsp_def remove_commas_def strip_def is_space_simps)

lemma cleaned_comma_text: "cleaned_text ''5,678'' = ''5678''"
  by (simp add: cleaned_text_def replace_nbsp_def remove_commas_def strip_def is_space_simps)

lemma is_digit_simps:
  "\<not> is_digit (CHR '' '')" "is_digit (CHR ''5'')" "is_digit (CHR ''6'')" "is_digit (CHR ''7'')" "is_digit (CHR ''8'')"
  by (simp_all add: is_digit_def)

lemma parse_digits_space: "parse_digits ''5 678'' = None"
  by (simp add: parse_digits_def is_digit_simps)

lemma parse_digits_5678: "parse_digits ''5678'' = Some (Fin 5678)"
  by (simp add: parse_digits_def is_digit_simps)

lemma keep_of_group_nonempty: "grp \<noteq> [] \<Longrightarrow> keep_of_group grp \<noteq> []"
  by (simp add: keep_of_group_def choose_row_with_more_non_nulls_def)

lemma kept_groups_key:
  assumes "k \<in> set ks" and "r \<in> set df" and "iso_a2 r = Some k"
  shows "Some k \<in> iso_a2 ` set (concat (map (\<lambda>k. keep_of_group (filter (\<lambda>r. iso_a2 r = Some k) df)) ks))"
proof -
  let ?g = "filter (\<lambda>r. iso_a2 r = Some k) df"
  have "?g \<noteq> []" using assms(2,3) by (auto simp: filter_empty_conv)
  then obtain e where e: "e \<in> set (keep_of_group ?g)"
    using keep_of_group_nonempty[of ?g] by (cases "keep_of_group ?g") auto
  then have "iso_a2 e = Some k" using keep_of_group_filter[of e "\<lambda>r. iso_a2 r = Some k" df] by simp
  moreover have "e \<in> set (concat (map (\<lambda>k. keep_of_group (filter (\<lambda>r. iso_a2 r = Some k) df)) ks))"
    using e assms(1) by auto
  ultimately show ?thesis by (metis image_eqI)
qed

lemma step_F_keys: "iso_a2 ` set (step_F df) = iso_a2 ` set df"
proof
  show "iso_a2 ` set (step_F df) \<subseteq> iso_a2 ` set df" using step_F_subset by blast
  show "iso_a2 ` set df \<subseteq> iso_a2 ` set (step_F df)"
  proof
    fix v assume "v \<in> iso_a2 ` set df"
    then obtain r where r: "r \<in> set df" and v: "v = iso_a2 r" by blast
    show "v \<in> iso_a2 ` set (step_F df)"
    proof (cases "distinct (map iso_a2 df)")
      case True
      then show ?thesis using r v by (simp add: step_F_def)
    next
      case False
      let ?ks = "sort (remdups (List.map_filter iso_a2 df))"
      let ?A = "concat (map (\<lambda>k. keep_of_group (filter (\<lambda>r. iso_a2 r = Some k) df)) ?ks)"
      let ?B = "keep_of_group (filter (\<lambda>r. iso_a2 r = None) df)"
      have eq: "step_F df = ?A @ (if None \<in> set (map iso_a2 df) then ?B else [])"
        using False unfolding step_F_def groupby_iso_a2_def
        by (simp add: comp_def del: set_concat set_map)
      show ?thesis
      proof (cases v)
        case None
        then have n: "None \<in> set (map iso_a2 df)" using r v by force
        have "iso_a2 r = None" using v None by simp
        then have "filter (\<lambda>r. iso_a2 r = None) df \<noteq> []"
          using r by (auto simp: filter_empty_conv)
        then obtain e where e: "e \<in> set ?B"
          using keep_of_group_nonempty[of "filter (\<lambda>r. iso_a2 r = None) df"] by (cases ?B) auto
        then have "iso_a2 e = None" using keep_of_group_filter[of e "\<lambda>r. iso_a2 r = None" df] by simp
        moreover have "e \<in> set (step_F df)" unfolding eq using e n by (simp del: set_concat)
        ultimately show ?thesis using None by (metis image_eqI)
      next
        case (Some k)
        then have "k \<in> set ?ks" using r v
          by (auto simp: map_filter_def image_iff)
        then have "Some k \<in> iso_a2 ` set ?A" using r v Some by (intro kept_groups_key) auto
        moreover have "set ?A \<subseteq> set (step_F df)" unfolding eq by (simp del: set_concat)
        ultimately show ?thesis using Some by blast
      qed
    qed
  qed
qed

lemma step_F_length: "length (step_F df) \<le> length df"
proof -
  have "length (step_F df) = length (map iso_a2 (step_F df))" by simp
  also have "\<dots> = card (set (map iso_a2 (step_F df)))"
    using step_F_distinct[of df] by (simp only: distinct_card)
  also have "\<dots> = card (iso_a2 ` set df)" using step_F_keys[of df] by simp
  also have "\<dots> \<le> card (set df)" by (rule card_image_le) simp
  also have "\<dots> \<le> length df" by (rule card_length)
  finally show ?thesis .
qed

lemma row_accounting:
  assumes "clean_world_data parse t g = Inr (out, rep)"
  shows "length out + deduplicated_rows rep + dropped_missing_area_or_pop rep
           = length (step_C (frame_coerced parse t))"
    and "length out + deduplicated_rows rep + dropped_missing_area_or_pop rep
           + dropped_invalid_nonpositive rep = length (frame_coerced parse t)"
proof -
  let ?D = "frame_after_imputation parse t"
  from clean_world_data_Inr[OF assms] have
    o: "length out = length (step_F (step_E ?D))"
    and d: "deduplicated_rows rep = length (step_E ?D) - length (step_F (step_E ?D))"
    and m: "dropped_missing_area_or_pop rep = length ?D - length (step_E ?D)"
    and i: "dropped_invalid_nonpositive rep = length (frame_coerced parse t) - length (step_C (frame_coerced parse t))"
    by (auto simp: finish_def step_G_map)
  have 1: "length (step_F (step_E ?D)) \<le> length (step_E ?D)" by (rule step_F_length)
  have 2: "length (step_E ?D) \<le> length ?D" by (simp add: step_E_def)
  have 3: "length ?D = length (step_C (frame_coerced parse t))" by (rule frame_after_length)
  have 4: "length (step_C (frame_coerced parse t)) \<le> length (frame_coerced parse t)"
    by (simp add: step_C_def)
  show "length out + deduplicated_rows rep + dropped_missing_area_or_pop rep
           = length (step_C (frame_coerced parse t))"
    using o d m 1 2 3 by simp
  then show "length out + deduplicated_rows rep + dropped_missing_area_or_pop rep
           + dropped_invalid_nonpositive rep = length (frame_coerced parse t)"
    using i 4 by simp
qed

lemma survivor_retained:
  assumes c: "clean_world_data parse t g = Inr (out, rep)"
    and r: "r \<in> set (step_C (frame_coerced parse t))"
    and nn: "area_km2 r \<noteq> None" "pop r \<noteq> None"
  shows "iso_a2 r \<in> iso_a2 ` set out"
proof -
  let ?f = "\<lambda>r :: float option row. (iso_a2 r, name_long r, area_km2 r, pop r)"
  let ?D = "frame_after_imputation parse t"
  have "?f r \<in> set (map ?f (step_C (frame_coerced parse t)))" using r by (simp add: image_iff) blast
  then have "?f r \<in> set (map ?f ?D)" by (simp only: frame_after_fields)
  then obtain r' where r': "r' \<in> set ?D" and e: "?f r' = ?f r" by auto
  then have "r' \<in> set (step_E ?D)" using nn by (simp add: step_E_def)
  then have "iso_a2 r' \<in> iso_a2 ` set (step_F (step_E ?D))" using step_F_keys by blast
  then have "iso_a2 r \<in> iso_a2 ` set (step_F (step_E ?D))" using e by simp
  moreover have "iso_a2 ` set out = iso_a2 ` set (step_F (step_E ?D))"
    unfolding clean_world_data_out[OF c] by (simp add: image_image)
  ultimately show ?thesis by simp
qed

lemma out_not_masked:
  assumes "clean_world_data parse t g = Inr (out, rep)" and "y \<in> set out"
  shows "\<not> invalid_mask y"
  using out_row_positive[OF assms] out_gdp_cases[OF assms]
  by (auto simp: invalid_mask_def gt0_iff le0_def)

lemma out_lifeExp_origin:
  assumes "clean_world_data parse t g = Inr (out, rep)" and "y \<in> set out"
  shows "\<exists>r\<in>set (step_C (frame_coerced parse t)). iso_a2 y = iso_a2 r
           \<and> lifeExp y = imputed_value (frame_before_imputation parse t) lifeExp
                 (if out_of_range r then r\<lparr>lifeExp := None\<rparr> else r)"
proof -
  from out_row_origin[OF assms] obtain r where r: "r \<in> set (frame_after_imputation parse t)"
    and y: "y = with_density r" by blast
  from frame_after_row[OF r] obtain r0 where r0: "r0 \<in> set (frame_before_imputation parse t)"
    and i: "iso_a2 r = iso_a2 r0"
    and l: "lifeExp r = imputed_value (frame_before_imputation parse t) lifeExp r0" by blast
  from r0 obtain r1 where r1: "r1 \<in> set (step_C (frame_coerced parse t))"
    and e: "r0 = (if out_of_range r1 then r1\<lparr>lifeExp := None\<rparr> else r1)"
    by (auto simp: frame_before_imputation_def frame_coerced_def set_out_of_range_nan_def)
  have "iso_a2 r0 = iso_a2 r1" using e by simp
  then show ?thesis using r1 e i l y by (intro bexI[of _ r1]) simp_all
qed





section \<open>The claims\<close>

text \<open>
  C1, as amended. Whenever \<open>clean_world_data\<close> returns, every record of its table has
  a non-null \<open>iso_a2\<close> and a non-null \<open>name_long\<close>, \<open>area_km2 > 0\<close> and \<open>pop > 0\<close>,
  and the \<open>iso_a2\<close> values of the table are pairwise distinct. \<open>gdpPercap > 0\<close> holds
  for every record when some record of the frame that enters the imputation has a
  non-null \<open>gdpPercap\<close>; when none has, \<open>gdpPercap\<close> is null in every record.
\<close>

theorem clean_output_invariants:
  assumes "clean_world_data parse t g = Inr (out, rep)"
  shows "(\<forall>y\<in>set out. iso_a2 y \<noteq> None \<and> name_long y \<noteq> None
            \<and> gt0 (area_km2 y) \<and> gt0 (pop y))
       \<and> distinct (map iso_a2 out)
       \<and> ((\<exists>r\<in>set (frame_before_imputation parse t). gdpPercap r \<noteq> None)
            \<longrightarrow> (\<forall>y\<in>set out. gt0 (gdpPercap y)))
       \<and> ((\<forall>r\<in>set (frame_before_imputation parse t). gdpPercap r = None)
            \<longrightarrow> (\<forall>y\<in>set out. gdpPercap y = None))"
proof (intro conjI ballI impI)
  let ?D0 = "frame_before_imputation parse t"
  let ?D1 = "impute_lifeExp_frame ?D0"
  show "distinct (map iso_a2 out)"
  proof -
    have "map iso_a2 out = map iso_a2 (step_F (step_E (frame_after_imputation parse t)))"
      unfolding clean_world_data_out[OF assms] by (simp add: comp_def)
    then show ?thesis using step_F_distinct by simp
  qed
  {
    fix y assume y: "y \<in> set out"
    from out_row_origin[OF assms y] obtain r where r: "r \<in> set (frame_after_imputation parse t)"
      and nn: "area_km2 r \<noteq> None" "pop r \<noteq> None" and ow: "y = with_density r" by blast
    from frame_after_row[OF r] obtain r0 r1 where r0: "r0 \<in> set ?D0"
      and eq: "iso_a2 r = iso_a2 r0" "name_long r = name_long r0" "area_km2 r = area_km2 r0" "pop r = pop r0"
      and r1: "r1 \<in> set ?D1" "gdpPercap r = imputed_value ?D1 gdpPercap r1" by blast
    note b = frame_before_row[OF r0]
    show "iso_a2 y \<noteq> None" using ow eq b by simp
    show "name_long y \<noteq> None" using ow eq b by simp
    show "gt0 (area_km2 y)" using ow eq b nn by (simp add: gt0_iff)
    show "gt0 (pop y)" using ow eq b nn by (simp add: gt0_iff)
    {
      assume "\<exists>r\<in>set ?D0. gdpPercap r \<noteq> None"
      then have "\<exists>r\<in>set ?D1. gdpPercap r \<noteq> None"
        using impute_lifeExp_frame_gdp' by metis
      then have "imputed_value ?D1 gdpPercap r1 \<noteq> None"
        using frame_gdp_pos by (rule imputed_total_pos)
      then have "gdpPercap r \<noteq> None" using r1 by simp
      then show "gt0 (gdpPercap y)" using out_gdp_cases[OF assms y] ow by auto
    }
    {
      assume "\<forall>r\<in>set ?D0. gdpPercap r = None"
      then have "\<forall>r\<in>set ?D1. gdpPercap r = None"
        using impute_lifeExp_frame_gdp by metis
      then have "gdpPercap r = None" using r1 imputed_value_all_null by metis
      then show "gdpPercap y = None" using ow by simp
    }
  }
qed


text \<open>The fixture of the tests satisfies the hypotheses of C1.\<close>

theorem clean_output_invariants_witness:
  "clean_world_data Map.empty raw_df_for_cleaning True = Inr (fixture_clean, fixture_report)
   \<and> list_all (\<lambda>y. iso_a2 y \<noteq> None \<and> name_long y \<noteq> None \<and> gt0 (area_km2 y) \<and> gt0 (pop y)
                    \<and> gt0 (gdpPercap y)) fixture_clean
   \<and> distinct (map iso_a2 fixture_clean)"
proof -
  have h: "clean_world_data Map.empty raw_df_for_cleaning True = Inr (fixture_clean, fixture_report)"
    by code_simp
  have e: "\<exists>r\<in>set (frame_before_imputation Map.empty raw_df_for_cleaning). gdpPercap r \<noteq> None"
    by code_simp
  show ?thesis
    using h e clean_output_invariants[OF h] by (simp add: list_all_iff)
qed

text \<open>
  C1 as stated fails: the one record of \<open>gdp_null_table\<close> has every required column
  and a null \<open>gdpPercap\<close>, and it is returned with \<open>gdpPercap\<close> still null.
\<close>

theorem gdpPercap_positive_counterexample:
  "clean_world_data Map.empty gdp_null_table True =
     Inr ([clean_row ''AA'' ''Alfa'' ''Europe'' ''Europe'' ''Western Europe'' ''Country''
             (Some (Fin 1000)) (Some (Fin 1000000)) (Some (Fin 80)) None (Some (Fin 1000))],
          \<lparr>dropped_missing_identifiers = 0, dropped_invalid_nonpositive = 0,
           lifeExp_out_of_range_set_nan = None,
           impute_lifeExp = Some \<lparr>by_subregion = 0, by_continent = 0, by_global = 0\<rparr>,
           impute_gdpPercap = Some \<lparr>by_subregion = 1, by_continent = 1, by_global = 1\<rparr>,
           dropped_missing_area_or_pop = 0, deduplicated_rows = 0, row_count = Some 1\<rparr>)
   \<and> \<not> gt0 (gdpPercap (clean_row ''AA'' ''Alfa'' ''Europe'' ''Europe'' ''Western Europe'' ''Country''
             (Some (Fin 1000)) (Some (Fin 1000000)) (Some (Fin 80)) None (Some (Fin 1000))))"
  by code_simp

text \<open>
  C2, as amended. For each of \<open>lifeExp\<close> and \<open>gdpPercap\<close>: when some record of the
  frame that enters the imputation (after identifier validation, coercion, range
  filtering and the nulling of out-of-range \<open>lifeExp\<close>) has a non-null value in the
  column, no record of the output is null in that column.
\<close>

theorem imputation_totality:
  assumes "clean_world_data parse t g = Inr (out, rep)"
  shows "((\<exists>r\<in>set (frame_before_imputation parse t). lifeExp r \<noteq> None)
            \<longrightarrow> (\<forall>y\<in>set out. lifeExp y \<noteq> None))
       \<and> ((\<exists>r\<in>set (frame_before_imputation parse t). gdpPercap r \<noteq> None)
            \<longrightarrow> (\<forall>y\<in>set out. gdpPercap y \<noteq> None))"
proof (intro conjI impI ballI)
  let ?D0 = "frame_before_imputation parse t"
  let ?D1 = "impute_lifeExp_frame ?D0"
  fix y assume y: "y \<in> set out"
  from out_row_origin[OF assms y] obtain r where r: "r \<in> set (frame_after_imputation parse t)"
    and yw: "y = with_density r" by blast
  from frame_after_row[OF r] obtain r0 r1 where r0: "r0 \<in> set ?D0"
    and l: "lifeExp r = imputed_value ?D0 lifeExp r0"
    and r1: "r1 \<in> set ?D1" "gdpPercap r = imputed_value ?D1 gdpPercap r1" by blast
  {
    assume "\<exists>r\<in>set ?D0. lifeExp r \<noteq> None"
    then have "imputed_value ?D0 lifeExp r0 \<noteq> None"
      using frame_lifeExp_pos by (rule imputed_total_pos)
    then have "lifeExp r \<noteq> None" using l by simp
    then show "lifeExp y \<noteq> None" using yw by simp
  }
  {
    assume "\<exists>r\<in>set ?D0. gdpPercap r \<noteq> None"
    then have "\<exists>r\<in>set ?D1. gdpPercap r \<noteq> None"
      using impute_lifeExp_frame_gdp' by metis
    then have "imputed_value ?D1 gdpPercap r1 \<noteq> None"
      using frame_gdp_pos by (rule imputed_total_pos)
    then have "gdpPercap r \<noteq> None" using r1 by simp
    then show "gdpPercap y \<noteq> None" using yw by simp
  }
qed

text \<open>The fixture of the tests satisfies the hypotheses of C2.\<close>

theorem imputation_totality_witness:
  "clean_world_data Map.empty raw_df_for_cleaning True = Inr (fixture_clean, fixture_report)
   \<and> list_ex (\<lambda>r. lifeExp r \<noteq> None) (frame_before_imputation Map.empty raw_df_for_cleaning)
   \<and> list_ex (\<lambda>r. gdpPercap r \<noteq> None) (frame_before_imputation Map.empty raw_df_for_cleaning)
   \<and> list_all (\<lambda>y. lifeExp y \<noteq> None \<and> gdpPercap y \<noteq> None) fixture_clean"
proof -
  have h: "clean_world_data Map.empty raw_df_for_cleaning True = Inr (fixture_clean, fixture_report)"
    by code_simp
  have e1: "list_ex (\<lambda>r. lifeExp r \<noteq> None) (frame_before_imputation Map.empty raw_df_for_cleaning)"
    by code_simp
  have e2: "list_ex (\<lambda>r. gdpPercap r \<noteq> None) (frame_before_imputation Map.empty raw_df_for_cleaning)"
    by code_simp
  show ?thesis
    using h e1 e2 imputation_totality[OF h] by (simp add: list_all_iff list_ex_iff)
qed

text \<open>
  C2 as stated fails: the input \<open>lifeExp_140_table\<close> holds the non-null \<open>lifeExp\<close>
  value 140, and its record is returned with a null \<open>lifeExp\<close>, because the value is
  nulled before the imputation and no other value is left for the global median.
\<close>

theorem imputation_totality_counterexample:
  "lifeExp (hd (rows lifeExp_140_table)) = Number (Fin 140)
   \<and> clean_world_data Map.empty lifeExp_140_table True =
     Inr ([clean_row ''DD'' ''Delta'' ''Africa'' ''Africa'' ''Western Africa'' ''Country''
             (Some (Fin 4000)) (Some (Fin 500000)) None (Some (Fin 1800)) (Some (Fin 125))],
          \<lparr>dropped_missing_identifiers = 0, dropped_invalid_nonpositive = 0,
           lifeExp_out_of_range_set_nan = Some 1,
           impute_lifeExp = Some \<lparr>by_subregion = 1, by_continent = 1, by_global = 1\<rparr>,
           impute_gdpPercap = Some \<lparr>by_subregion = 0, by_continent = 0, by_global = 0\<rparr>,
           dropped_missing_area_or_pop = 0, deduplicated_rows = 0, row_count = Some 1\<rparr>)"
  by code_simp

text \<open>
  C3, at a failing input. The claim says that of two input records with one \<open>iso_a2\<close>,
  one with all four numeric fields and one with exactly one of them null, the pipeline
  retains the fully populated one. On \<open>duplicate_table\<close> the record of AA that is
  returned is the first one, whose \<open>lifeExp\<close> was null in the input (its \<open>gdpPercap\<close>
  is 40000, its \<open>lifeExp\<close> the subregion median 70): the imputation has filled the
  null before the deduplication counts the non-null fields, so the counts tie and the
  first occurrence wins.
\<close>

theorem dedup_keeps_first_row_after_imputation:
  "clean_world_data Map.empty duplicate_table True =
     Inr ([clean_row ''AA'' ''Alfa'' ''Europe'' ''Europe'' ''Western Europe'' ''Country''
             (Some (Fin 1000)) (Some (Fin 1000000)) (Some (Fin 70)) (Some (Fin 40000)) (Some (Fin 1000)),
           clean_row ''BB'' ''Bravo'' ''Europe'' ''Europe'' ''Western Europe'' ''Country''
             (Some (Fin 2000)) (Some (Fin 2000000)) (Some (Fin 60)) (Some (Fin 30000)) (Some (Fin 1000))],
          \<lparr>dropped_missing_identifiers = 0, dropped_invalid_nonpositive = 0,
           lifeExp_out_of_range_set_nan = None,
           impute_lifeExp = Some \<lparr>by_subregion = 1, by_continent = 0, by_global = 0\<rparr>,
           impute_gdpPercap = Some \<lparr>by_subregion = 0, by_continent = 0, by_global = 0\<rparr>,
           dropped_missing_area_or_pop = 0, deduplicated_rows = 1, row_count = Some 2\<rparr>)"
  by code_simp

text \<open>
  C4, at a failing input. The claim says that each tier counts the values it resolved
  and that every resolved null is counted at exactly one tier. In \<open>overcount_frame\<close>
  there is one null \<open>lifeExp\<close>; its subregion has no value, so the subregion tier
  leaves it null and the continent tier fills it, and the report counts it at both
  tiers.
\<close>

theorem tier_counts_overcount:
  "length (filter (\<lambda>r. lifeExp r = None) overcount_frame) = 1
   \<and> imputation_groupwise_median REQUIRED_COLUMNS overcount_frame lifeExp [''subregion'', ''continent'']
       = Inr ([Some (Fin 70), Some (Fin 70)], \<lparr>by_subregion = 1, by_continent = 1, by_global = 0\<rparr>)"
  by code_simp

text \<open>
  C8, at a failing input. The claim says that non-breaking spaces are removed from a
  text before it is parsed. The code replaces U+00A0 by a space, so the text 5, U+00A0,
  678 reaches the parser as \<open>5 678\<close> with the space inside and becomes null, while
  \<open>5,678\<close>, whose comma is removed, becomes 5678.
\<close>

theorem nbsp_replaced_by_space:
  "cleaned_text nbsp_text = ''5 678''
   \<and> to_numeric_cell parse_digits (Text nbsp_text) = Missing
   \<and> to_numeric_cell parse_digits (Text ''5,678'') = Number (Fin 5678)"
  by (simp add: to_numeric_cell_def Let_def cleaned_nbsp_text cleaned_comma_text parse_digits_space parse_digits_5678)

text \<open>
  C10. Whenever the imputation of a column returns, the value it leaves in a record is
  \<open>imputed_value\<close>: the three medians are those of the column as the imputation
  received it, so a value filled at one tier is never part of a later median.
\<close>

theorem imputation_medians_of_original_column:
  assumes "imputation_groupwise_median cols df col [''subregion'', ''continent''] = Inr (filled, counts)"
  shows "filled = map (imputed_value df col) df"
  using imputation_closed_form[OF assms] .

text \<open>
  In \<open>tier_frame\<close> the third record gets the continent median 30 of the values 10 and
  50, not the median 10 of the values after the subregion tier, and the fifth gets the
  global median 30 of the same two values.
\<close>

theorem imputation_medians_of_original_column_witness:
  "imputation_groupwise_median REQUIRED_COLUMNS tier_frame lifeExp [''subregion'', ''continent'']
     = Inr ([Some (Fin 10), Some (Fin 10), Some (Fin 30), Some (Fin 50), Some (Fin 30)],
            \<lparr>by_subregion = 3, by_continent = 2, by_global = 1\<rparr>)
   \<and> map (imputed_value tier_frame lifeExp) tier_frame = [Some (Fin 10), Some (Fin 10), Some (Fin 30), Some (Fin 50), Some (Fin 30)]"
proof -
  have h: "imputation_groupwise_median REQUIRED_COLUMNS tier_frame lifeExp [''subregion'', ''continent'']
     = Inr ([Some (Fin 10), Some (Fin 10), Some (Fin 30), Some (Fin 50), Some (Fin 30)],
            \<lparr>by_subregion = 3, by_continent = 2, by_global = 1\<rparr>)"
    by code_simp
  show ?thesis
    using h imputation_medians_of_original_column[OF h] by simp
qed

text \<open>
  C5. After coercion a record is removed at the range filter exactly when \<open>pop \<le> 0\<close>
  or \<open>area_km2 \<le> 0\<close> or \<open>gdpPercap \<le> 0\<close>, and a null in these fields never sets
  the mask: no record of the output satisfies the mask; every coerced record that does
  not satisfy it and has an area and a population keeps its \<open>iso_a2\<close> in the output,
  also with a null \<open>gdpPercap\<close>; the counter \<open>dropped_invalid_nonpositive\<close> is the
  number of coerced records that satisfy the mask, the counter
  \<open>dropped_missing_area_or_pop\<close> counts records that do not satisfy it only; and the
  records of the output and those counted by the three drop counters are all the
  coerced records.
\<close>

theorem range_filter_accounting:
  assumes "clean_world_data parse t g = Inr (out, rep)"
  shows "(\<forall>r :: float option row. invalid_mask r \<longleftrightarrow>
            (\<exists>x. pop r = Some x \<and> x \<le> Fin 0) \<or> (\<exists>x. area_km2 r = Some x \<and> x \<le> Fin 0)
            \<or> (\<exists>x. gdpPercap r = Some x \<and> x \<le> Fin 0))
       \<and> (\<forall>y\<in>set out. \<not> invalid_mask y)
       \<and> (\<forall>r\<in>set (frame_coerced parse t).
             \<not> invalid_mask r \<and> area_km2 r \<noteq> None \<and> pop r \<noteq> None
             \<longrightarrow> iso_a2 r \<in> iso_a2 ` set out)
       \<and> dropped_invalid_nonpositive rep = length (filter invalid_mask (frame_coerced parse t))
       \<and> dropped_missing_area_or_pop rep =
            length (filter (\<lambda>r. \<not> invalid_mask r \<and> (area_km2 r = None \<or> pop r = None))
                      (frame_coerced parse t))
       \<and> length out + deduplicated_rows rep + dropped_missing_area_or_pop rep
            + dropped_invalid_nonpositive rep = length (frame_coerced parse t)"
proof (intro conjI ballI impI)
  show "\<forall>r :: float option row. invalid_mask r \<longleftrightarrow>
            (\<exists>x. pop r = Some x \<and> x \<le> Fin 0) \<or> (\<exists>x. area_km2 r = Some x \<and> x \<le> Fin 0)
            \<or> (\<exists>x. gdpPercap r = Some x \<and> x \<le> Fin 0)"
    using invalid_mask_iff by blast
  show "\<not> invalid_mask y" if "y \<in> set out" for y
    using out_not_masked[OF assms that] .
  show "iso_a2 r \<in> iso_a2 ` set out"
    if "r \<in> set (frame_coerced parse t)"
      and "\<not> invalid_mask r \<and> area_km2 r \<noteq> None \<and> pop r \<noteq> None" for r
  proof -
    have "r \<in> set (step_C (frame_coerced parse t))" using that by (simp add: step_C_def)
    then show ?thesis using survivor_retained[OF assms] that(2) by blast
  qed
  show "dropped_invalid_nonpositive rep = length (filter invalid_mask (frame_coerced parse t))"
    unfolding report_counters(1)[OF assms] step_C_def
    using length_filter_compl[of "frame_coerced parse t" "\<lambda>r. \<not> invalid_mask r"] by simp
  show "dropped_missing_area_or_pop rep =
            length (filter (\<lambda>r. \<not> invalid_mask r \<and> (area_km2 r = None \<or> pop r = None))
                      (frame_coerced parse t))"
    unfolding report_counters(3)[OF assms] missing_area_or_pop_count
    by (simp add: step_C_def)
  show "length out + deduplicated_rows rep + dropped_missing_area_or_pop rep
            + dropped_invalid_nonpositive rep = length (frame_coerced parse t)"
    by (rule row_accounting(2)[OF assms])
qed

text \<open>
  In \<open>range_filter_table\<close> the record DD with area 0 is removed and counted by the
  range filter, the record CC with a null population passes it and is counted by the
  completeness step, and the record BB with a null \<open>gdpPercap\<close> is returned.
\<close>

theorem range_filter_accounting_witness:
  "clean_world_data Map.empty range_filter_table True =
     Inr ([clean_row ''AA'' ''Alfa'' ''Europe'' ''Europe'' ''Western Europe'' ''Country''
             (Some (Fin 1000)) (Some (Fin 1000000)) (Some (Fin 80)) (Some (Fin 50000)) (Some (Fin 1000)),
           clean_row ''BB'' ''Bravo'' ''Europe'' ''Europe'' ''Western Europe'' ''Country''
             (Some (Fin 2000)) (Some (Fin 2000000)) (Some (Fin 76)) (Some (Fin 50000)) (Some (Fin 1000))],
          \<lparr>dropped_missing_identifiers = 0, dropped_invalid_nonpositive = 1,
           lifeExp_out_of_range_set_nan = None,
           impute_lifeExp = Some \<lparr>by_subregion = 0, by_continent = 0, by_global = 0\<rparr>,
           impute_gdpPercap = Some \<lparr>by_subregion = 1, by_continent = 0, by_global = 0\<rparr>,
           dropped_missing_area_or_pop = 1, deduplicated_rows = 0, row_count = Some 2\<rparr>)
   \<and> map (\<lambda>r. (iso_a2 r, invalid_mask r, area_km2 r = None \<or> pop r = None))
         (frame_coerced Map.empty range_filter_table)
       = [(Some ''AA'', False, False), (Some ''BB'', False, False),
          (Some ''CC'', False, True), (Some ''DD'', True, False)]
   \<and> length (filter invalid_mask (frame_coerced Map.empty range_filter_table)) = 1
   \<and> length (filter (\<lambda>r. \<not> invalid_mask r \<and> (area_km2 r = None \<or> pop r = None))
                (frame_coerced Map.empty range_filter_table)) = 1"
proof -
  have h: "clean_world_data Map.empty range_filter_table True =
     Inr ([clean_row ''AA'' ''Alfa'' ''Europe'' ''Europe'' ''Western Europe'' ''Country''
             (Some (Fin 1000)) (Some (Fin 1000000)) (Some (Fin 80)) (Some (Fin 50000)) (Some (Fin 1000)),
           clean_row ''BB'' ''Bravo'' ''Europe'' ''Europe'' ''Western Europe'' ''Country''
             (Some (Fin 2000)) (Some (Fin 2000000)) (Some (Fin 76)) (Some (Fin 50000)) (Some (Fin 1000))],
          \<lparr>dropped_missing_identifiers = 0, dropped_invalid_nonpositive = 1,
           lifeExp_out_of_range_set_nan = None,
           impute_lifeExp = Some \<lparr>by_subregion = 0, by_continent = 0, by_global = 0\<rparr>,
           impute_gdpPercap = Some \<lparr>by_subregion = 1, by_continent = 0, by_global = 0\<rparr>,
           dropped_missing_area_or_pop = 1, deduplicated_rows = 0, row_count = Some 2\<rparr>)"
    by code_simp
  have m: "map (\<lambda>r. (iso_a2 r, invalid_mask r, area_km2 r = None \<or> pop r = None))
         (frame_coerced Map.empty range_filter_table)
       = [(Some ''AA'', False, False), (Some ''BB'', False, False),
          (Some ''CC'', False, True), (Some ''DD'', True, False)]"
    by code_simp
  note T = range_filter_accounting[OF h]
  have a: "length (filter invalid_mask (frame_coerced Map.empty range_filter_table)) = 1"
    using T[THEN conjunct2, THEN conjunct2, THEN conjunct2, THEN conjunct1] by simp
  have b: "length (filter (\<lambda>r. \<not> invalid_mask r \<and> (area_km2 r = None \<or> pop r = None))
                (frame_coerced Map.empty range_filter_table)) = 1"
    using T[THEN conjunct2, THEN conjunct2, THEN conjunct2, THEN conjunct2, THEN conjunct1] by simp
  show ?thesis by (intro conjI h m a b)
qed

text \<open>
  C6. A \<open>lifeExp\<close> outside the open interval from 0 to 120 does not remove its record
  and is reset to null: no record of the output has a \<open>lifeExp\<close> outside the interval;
  every record that passes the range filter and has an area and a population keeps its
  \<open>iso_a2\<close> in the output, whatever its \<open>lifeExp\<close>; the \<open>lifeExp\<close> of a record of
  the output is the value that the imputation gives to a record of the filtered frame
  after its out-of-range \<open>lifeExp\<close> was set to null; the counter
  \<open>lifeExp_out_of_range_set_nan\<close> is the number of values reset (the key is absent
  when there is none); and between the range filter and the output records leave only
  through the completeness step and the deduplication, which count them.
\<close>

theorem lifeExp_soft_null:
  assumes "clean_world_data parse t g = Inr (out, rep)"
  shows "(\<forall>r :: float option row. out_of_range r \<longleftrightarrow>
            (\<exists>x. lifeExp r = Some x \<and> \<not> (Fin 0 < x \<and> x < Fin 120)))
       \<and> (\<forall>y\<in>set out. \<not> out_of_range y)
       \<and> (\<forall>r\<in>set (step_C (frame_coerced parse t)).
             area_km2 r \<noteq> None \<and> pop r \<noteq> None \<longrightarrow> iso_a2 r \<in> iso_a2 ` set out)
       \<and> (\<forall>y\<in>set out. \<exists>r\<in>set (step_C (frame_coerced parse t)). iso_a2 y = iso_a2 r
             \<and> lifeExp y =
                 imputed_value
                   (map (\<lambda>r. if out_of_range r then r\<lparr>lifeExp := None\<rparr> else r)
                      (step_C (frame_coerced parse t)))
                   lifeExp (if out_of_range r then r\<lparr>lifeExp := None\<rparr> else r))
       \<and> lifeExp_out_of_range_set_nan rep =
            (if length (filter out_of_range (step_C (frame_coerced parse t))) = 0 then None
             else Some (length (filter out_of_range (step_C (frame_coerced parse t)))))
       \<and> length out + deduplicated_rows rep + dropped_missing_area_or_pop rep
            = length (step_C (frame_coerced parse t))"
proof (intro conjI ballI impI)
  have fb: "frame_before_imputation parse t =
      map (\<lambda>r. if out_of_range r then r\<lparr>lifeExp := None\<rparr> else r) (step_C (frame_coerced parse t))"
    by (simp add: frame_before_imputation_def frame_coerced_def set_out_of_range_nan_def)
  show "\<forall>r :: float option row. out_of_range r \<longleftrightarrow>
            (\<exists>x. lifeExp r = Some x \<and> \<not> (Fin 0 < x \<and> x < Fin 120))"
    using out_of_range_iff by blast
  show "\<not> out_of_range y" if "y \<in> set out" for y
    using out_lifeExp_range[OF assms that] .
  show "iso_a2 r \<in> iso_a2 ` set out"
    if "r \<in> set (step_C (frame_coerced parse t))" and "area_km2 r \<noteq> None \<and> pop r \<noteq> None" for r
    using survivor_retained[OF assms that(1)] that(2) by blast
  show "\<exists>r\<in>set (step_C (frame_coerced parse t)). iso_a2 y = iso_a2 r
             \<and> lifeExp y =
                 imputed_value
                   (map (\<lambda>r. if out_of_range r then r\<lparr>lifeExp := None\<rparr> else r)
                      (step_C (frame_coerced parse t)))
                   lifeExp (if out_of_range r then r\<lparr>lifeExp := None\<rparr> else r)"
    if "y \<in> set out" for y
    using out_lifeExp_origin[OF assms that] unfolding fb .
  show "lifeExp_out_of_range_set_nan rep =
            (if length (filter out_of_range (step_C (frame_coerced parse t))) = 0 then None
             else Some (length (filter out_of_range (step_C (frame_coerced parse t)))))"
    unfolding report_counters(2)[OF assms] by simp
  show "length out + deduplicated_rows rep + dropped_missing_area_or_pop rep
            = length (step_C (frame_coerced parse t))"
    by (rule row_accounting(1)[OF assms])
qed

text \<open>
  On the fixture of the tests the record DD with \<open>lifeExp = 140\<close> is returned with the
  imputed \<open>lifeExp\<close> 80 and is counted once.
\<close>

theorem lifeExp_soft_null_witness:
  "clean_world_data Map.empty raw_df_for_cleaning True = Inr (fixture_clean, fixture_report)
   \<and> map (\<lambda>r. (iso_a2 r, lifeExp r, out_of_range r)) (step_C (frame_coerced Map.empty raw_df_for_cleaning))
       = [(Some ''AA'', Some (Fin 80), False), (Some ''AA'', None, False),
          (Some ''DD'', Some (Fin 140), True)]
   \<and> map (\<lambda>y. (iso_a2 y, lifeExp y, out_of_range y)) fixture_clean
       = [(Some ''AA'', Some (Fin 80), False), (Some ''DD'', Some (Fin 80), False)]
   \<and> lifeExp_out_of_range_set_nan fixture_report = Some 1
   \<and> length (filter out_of_range (step_C (frame_coerced Map.empty raw_df_for_cleaning))) = 1
   \<and> length fixture_clean + deduplicated_rows fixture_report
        + dropped_missing_area_or_pop fixture_report
       = length (step_C (frame_coerced Map.empty raw_df_for_cleaning))"
proof -
  have h: "clean_world_data Map.empty raw_df_for_cleaning True = Inr (fixture_clean, fixture_report)"
    by code_simp
  have a: "map (\<lambda>r. (iso_a2 r, lifeExp r, out_of_range r)) (step_C (frame_coerced Map.empty raw_df_for_cleaning))
       = [(Some ''AA'', Some (Fin 80), False), (Some ''AA'', None, False),
          (Some ''DD'', Some (Fin 140), True)]"
    by code_simp
  have b: "map (\<lambda>y. (iso_a2 y, lifeExp y, out_of_range y)) fixture_clean
       = [(Some ''AA'', Some (Fin 80), False), (Some ''DD'', Some (Fin 80), False)]"
    by code_simp
  have c: "lifeExp_out_of_range_set_nan fixture_report = Some 1"
    by (simp add: fixture_report_def)
  note T = lifeExp_soft_null[OF h]
  have d: "length (filter out_of_range (step_C (frame_coerced Map.empty raw_df_for_cleaning))) = 1"
    using T[THEN conjunct2, THEN conjunct2, THEN conjunct2, THEN conjunct2, THEN conjunct1] c
    by (simp split: if_splits)
  have e: "length fixture_clean + deduplicated_rows fixture_report
        + dropped_missing_area_or_pop fixture_report
       = length (step_C (frame_coerced Map.empty raw_df_for_cleaning))"
    using T[THEN conjunct2, THEN conjunct2, THEN conjunct2, THEN conjunct2, THEN conjunct2] .
  show ?thesis by (intro conjI h a b c d e)
qed







end
